theory Spec2Isabelle
  imports Main
begin

section \<open>Conway's Game of Life (game.js): values, arrays and the configuration\<close>

text \<open>
  The script keeps its state in module-level variables and in the DOM. The model below
  threads that state through every handler as a record. Cells are JavaScript numbers;
  a read past the end of an array yields \<open>undefined\<close>, \<open>%\<close> by zero yields \<open>NaN\<close>,
  and a JSON round trip turns both into \<open>null\<close>, so the value type has all four.
\<close>

datatype jsval = Num int | NaN | Undefined | Null

datatype error = TypeError | RangeError

text \<open>
  \<open>count += v\<close> on the values that can meet there: \<open>null\<close> converts to 0,
  \<open>undefined\<close> and \<open>NaN\<close> make the sum \<open>NaN\<close>.
\<close>

fun js_add :: "jsval \<Rightarrow> jsval \<Rightarrow> jsval" where
  "js_add (Num a) (Num b) = Num (a + b)"
| "js_add (Num a) Null = Num a"
| "js_add Null (Num b) = Num b"
| "js_add Null Null = Num 0"
| "js_add _ _ = NaN"

text \<open>
  The remainder operator \<open>a % b\<close> on integers: the result has the sign of the dividend
  (truncated division), and \<open>b = 0\<close> gives \<open>NaN\<close>.
\<close>

definition js_rem :: "int \<Rightarrow> int \<Rightarrow> jsval" where
  "js_rem a b = (if b = 0 then NaN else Num (sgn a * (\<bar>a\<bar> mod \<bar>b\<bar>)))"

text \<open>
  \<open>n++\<close> on a counter. JavaScript numbers are doubles: every integer of magnitude up to
  \<open>2^53\<close> is one, beyond that only the even ones up to \<open>2^54\<close>, then the multiples of 4,
  and so on. Adding 1 is exact from \<open>-2^53\<close> up to \<open>2^53 - 1\<close>. At a larger even magnitude
  below \<open>2^54\<close> the sum lies halfway between two doubles and is rounded to the one whose
  last bit is 0; at a magnitude of \<open>2^54\<close> or more it is rounded back to \<open>n\<close>.
\<close>

definition js_increment :: "int \<Rightarrow> int" where
  "js_increment n =
     (if - (2 ^ 53) \<le> n \<and> n < 2 ^ 53 then n + 1
      else if \<bar>n\<bar> < 2 ^ 54 then (if n mod 4 = 0 then n else n + 2)
      else n)"

text \<open>
  \<open>arr[k]\<close> for a computed key: an element when \<open>k\<close> is an index of the array,
  \<open>undefined\<close> (here \<open>None\<close>) otherwise.
\<close>

definition js_index :: "'a list \<Rightarrow> jsval \<Rightarrow> 'a option" where
  "js_index xs k =
     (case k of
        Num i \<Rightarrow> if 0 \<le> i \<and> i < int (length xs) then Some (xs ! nat i) else None
      | _ \<Rightarrow> None)"

text \<open>
  \<open>row[x] = v\<close>: an assignment past the end extends the array, leaving holes
  (which read as \<open>undefined\<close>) in between.
\<close>

definition js_store :: "jsval list \<Rightarrow> nat \<Rightarrow> jsval \<Rightarrow> jsval list" where
  "js_store row x v =
     (if x < length row then row[x := v]
      else row @ replicate (x - length row) Undefined @ [v])"

text \<open>
  The fields of \<open>CONFIG\<close> that the simulation reads. They are mutable: \<open>initCanvas\<close>
  rewrites them on small windows.
\<close>

record config =
  cellSize :: int
  gridWidth :: int
  gridHeight :: int

text \<open>
  A grid is an array of row arrays. Rows are mutable objects that handlers write in
  place, so they live in a heap of rows addressed by position; the outer array is never
  written after it is built and is kept as the list of its rows' addresses. A fresh row
  is allocated at the end of the heap.
\<close>

type_synonym heap = "jsval list list"
type_synonym gridref = "nat list"

definition deref :: "heap \<Rightarrow> nat \<Rightarrow> jsval list" where
  "deref h a = (if a < length h then h ! a else [])"

text \<open>The grid as a value: what the rows hold at this moment.\<close>

definition gridValue :: "heap \<Rightarrow> gridref \<Rightarrow> jsval list list" where
  "gridValue h g = map (deref h) g"

text \<open>
  \<open>grid[ky][kx]\<close>: a missing row makes the second subscript throw; a missing column
  reads \<open>undefined\<close>.
\<close>

definition readCell :: "heap \<Rightarrow> gridref \<Rightarrow> jsval \<Rightarrow> jsval \<Rightarrow> error + jsval" where
  "readCell h g ky kx =
     (case js_index g ky of
        None \<Rightarrow> Inl TypeError
      | Some a \<Rightarrow>
          (case js_index (deref h a) kx of
             None \<Rightarrow> Inr Undefined
           | Some v \<Rightarrow> Inr v))"

text \<open>\<open>newGrid[y][x] = v\<close> for loop counters \<open>y\<close>, \<open>x\<close>.\<close>

definition writeCell :: "heap \<Rightarrow> gridref \<Rightarrow> nat \<Rightarrow> nat \<Rightarrow> jsval \<Rightarrow> error + heap" where
  "writeCell h g y x v =
     (if y < length g then Inr (h[g ! y := js_store (deref h (g ! y)) x v])
      else Inl TypeError)"

text \<open>A \<open>for\<close> loop over a list of counter values whose body may throw.\<close>

fun forE :: "'a list \<Rightarrow> ('a \<Rightarrow> 's \<Rightarrow> error + 's) \<Rightarrow> 's \<Rightarrow> error + 's" where
  "forE [] body s = Inr s"
| "forE (i # is) body s =
     (case body i s of Inl e \<Rightarrow> Inl e | Inr s' \<Rightarrow> forE is body s')"

section \<open>Counting neighbours\<close>

text \<open>
  One pass of the inner loop body of \<open>countNeighbors\<close>: skip the cell itself, wrap both
  coordinates, add the neighbour's value.
\<close>

definition neighborStep ::
  "config \<Rightarrow> heap \<Rightarrow> gridref \<Rightarrow> int \<Rightarrow> int \<Rightarrow> int \<Rightarrow> int \<Rightarrow> jsval \<Rightarrow> error + jsval" where
  "neighborStep c h g x y i j count =
     (if i = 0 \<and> j = 0 then Inr count
      else
        let newY = js_rem (y + i + gridHeight c) (gridHeight c);
            newX = js_rem (x + j + gridWidth c) (gridWidth c)
        in (case readCell h g newY newX of
              Inl e \<Rightarrow> Inl e
            | Inr v \<Rightarrow> Inr (js_add count v)))"

definition countNeighbors :: "config \<Rightarrow> heap \<Rightarrow> gridref \<Rightarrow> int \<Rightarrow> int \<Rightarrow> error + jsval" where
  "countNeighbors c h g x y =
     forE [-1, 0, 1] (\<lambda>i. forE [-1, 0, 1] (\<lambda>j. neighborStep c h g x y i j)) (Num 0)"

text \<open>
  The specification's reading of the neighbour count, for comparison: the sum of the
  states of the eight neighbours, each coordinate wrapped as
  \<open>(coord + delta + dimension) mod dimension\<close>.
\<close>

definition offsets :: "(int \<times> int) list" where
  "offsets = [(-1, -1), (-1, 0), (-1, 1), (0, -1), (0, 1), (1, -1), (1, 0), (1, 1)]"

definition cellState :: "jsval \<Rightarrow> int" where
  "cellState v = (case v of Num n \<Rightarrow> n | _ \<Rightarrow> 0)"

definition neighborSum_spec :: "int \<Rightarrow> int \<Rightarrow> jsval list list \<Rightarrow> int \<Rightarrow> int \<Rightarrow> int" where
  "neighborSum_spec W H v x y =
     sum_list (map (\<lambda>(i, j). cellState (v ! nat ((y + i + H) mod H) ! nat ((x + j + W) mod W)))
       offsets)"

section \<open>Well-formed grids\<close>

text \<open>
  A grid of the configured dimensions: \<open>gridHeight\<close> rows of \<open>gridWidth\<close> cells, every
  row allocated. A binary grid holds only the numbers 0 and 1.
\<close>

definition configuredGrid :: "config \<Rightarrow> heap \<Rightarrow> gridref \<Rightarrow> bool" where
  "configuredGrid c h g =
     (0 \<le> gridWidth c \<and> 0 \<le> gridHeight c \<and> int (length g) = gridHeight c \<and>
      list_all (\<lambda>a. a < length h \<and> int (length (h ! a)) = gridWidth c) g)"

definition binaryCell :: "jsval \<Rightarrow> bool" where
  "binaryCell v = (v = Num 0 \<or> v = Num 1)"

definition binaryGrid :: "jsval list list \<Rightarrow> bool" where
  "binaryGrid v = list_all (list_all binaryCell) v"

section \<open>The page state\<close>

text \<open>
  Toast messages, by what they say:
  \<^item> \<open>NameRequired\<close>: \<^verbatim>\<open>Por favor, ingresa un nombre para la partida\<close>
  \<^item> \<open>Saved n\<close>: \<^verbatim>\<open>Partida "n" guardada correctamente\<close>
  \<^item> \<open>LoadFailed\<close>: \<^verbatim>\<open>No se pudo cargar la partida\<close>
  \<^item> \<open>DimensionsDiffer\<close>: \<^verbatim>\<open>La partida guardada tiene dimensiones diferentes\<close>
  \<^item> \<open>Loaded n\<close>: \<^verbatim>\<open>Partida "n" cargada\<close>
  \<^item> \<open>Deleted n\<close>: \<^verbatim>\<open>Partida "n" eliminada\<close>
  \<^item> \<open>Cleared\<close>: \<^verbatim>\<open>Tablero limpiado\<close>
  \<^item> \<open>Randomized\<close>: \<^verbatim>\<open>Tablero generado aleatoriamente\<close>
  \<^item> \<open>Started\<close>: the greeting shown by the automatic start.
  The second argument of \<open>showToast\<close> is \<^verbatim>\<open>'success'\<close> or \<^verbatim>\<open>'error'\<close>.
\<close>

datatype message =
  NameRequired | Saved string | LoadFailed | DimensionsDiffer | Loaded string
  | Deleted string | Cleared | Randomized | Started

datatype toastType = Success | Failure

text \<open>
  What \<open>localStorage\<close> holds is JSON text, so a persisted cell is a number or \<open>null\<close>:
  \<open>JSON.stringify\<close> writes \<open>undefined\<close>, holes and \<open>NaN\<close> inside an array as \<open>null\<close>.
\<close>

datatype json = JNum int | JNull

fun toJson :: "jsval \<Rightarrow> json" where
  "toJson (Num n) = JNum n"
| "toJson _ = JNull"

fun fromJson :: "json \<Rightarrow> jsval" where
  "fromJson (JNum n) = Num n"
| "fromJson JNull = Null"

text \<open>The record \<open>gameData\<close> that \<open>saveGame\<close> builds, as persisted.\<close>

record gameData =
  savedName :: string
  savedGrid :: "json list list"
  savedGeneration :: int
  savedDate :: string
  savedWidth :: int
  savedHeight :: int

text \<open>
  \<open>storage\<close> is the item \<^verbatim>\<open>conwayGameSaves\<close> of \<open>localStorage\<close>: absent, or the parsed
  object, a finite map from names to records. \<open>framePending\<close> says whether a
  \<open>requestAnimationFrame\<close> callback armed through \<open>animationId\<close> is outstanding.
  \<open>generation\<close> holds the integer value of the counter, a double; \<open>js_increment\<close> is its
  \<open>++\<close>.
  The canvas, the statistics and the button labels are outputs only and are left out.
\<close>

record state =
  config :: config
  heap :: heap
  grid :: gridref
  isRunning :: bool
  generation :: int
  framePending :: bool
  saveNameInput :: string
  storage :: "(string \<rightharpoonup> gameData) option"
  toast :: "(message \<times> toastType) option"
  modalOpen :: bool

text \<open>
  A handler either runs to its end or is cut short by an uncaught exception; the page
  lives on in the state reached so far in both cases.
\<close>

datatype result = Done state | Threw error state

fun final :: "result \<Rightarrow> state" where
  "final (Done st) = st"
| "final (Threw e st) = st"

fun andThen :: "result \<Rightarrow> (state \<Rightarrow> result) \<Rightarrow> result" where
  "andThen (Done st) f = f st"
| "andThen (Threw e st) f = Threw e st"

section \<open>Building grids\<close>

text \<open>
  \<open>Array(n)\<close> throws a \<open>RangeError\<close> for a negative length. The rows are built by the
  callback of \<open>map\<close>, once per row, so every row is a fresh array.
\<close>

definition createEmptyGrid :: "config \<Rightarrow> heap \<Rightarrow> error + heap \<times> gridref" where
  "createEmptyGrid c h =
     (if gridHeight c < 0 \<or> (0 < gridHeight c \<and> gridWidth c < 0) then Inl RangeError
      else Inr (h @ replicate (nat (gridHeight c)) (replicate (nat (gridWidth c)) (Num 0)),
                [length h ..< length h + nat (gridHeight c)]))"

text \<open>
  \<open>rnd k\<close> is the outcome of \<open>Math.random() < CONFIG.initialDensity\<close> at the \<open>k\<close>-th
  call; the calls run row by row.
\<close>

definition createRandomGrid :: "(nat \<Rightarrow> bool) \<Rightarrow> config \<Rightarrow> heap \<Rightarrow> error + heap \<times> gridref" where
  "createRandomGrid rnd c h =
     (if gridHeight c < 0 \<or> (0 < gridHeight c \<and> gridWidth c < 0) then Inl RangeError
      else Inr (h @ map (\<lambda>y. map (\<lambda>x. if rnd (y * nat (gridWidth c) + x) then Num 1 else Num 0)
                               [0 ..< nat (gridWidth c)])
                       [0 ..< nat (gridHeight c)],
                [length h ..< length h + nat (gridHeight c)]))"

text \<open>Rows parsed from JSON text are fresh arrays as well.\<close>

definition parseGrid :: "heap \<Rightarrow> json list list \<Rightarrow> heap \<times> gridref" where
  "parseGrid h rows = (h @ map (map fromJson) rows, [length h ..< length h + length rows])"

section \<open>The simulation step\<close>

definition cellRule :: "jsval \<Rightarrow> jsval \<Rightarrow> jsval" where
  "cellRule cell neighbors =
     (if cell = Num 1 \<and> (neighbors = Num 2 \<or> neighbors = Num 3) then Num 1
      else if cell = Num 0 \<and> neighbors = Num 3 then Num 1
      else Num 0)"

text \<open>The body of the inner loop of \<open>nextGeneration\<close>, on the heap.\<close>

definition cellStep :: "config \<Rightarrow> gridref \<Rightarrow> gridref \<Rightarrow> nat \<Rightarrow> nat \<Rightarrow> heap \<Rightarrow> error + heap" where
  "cellStep c g newGrid y x h =
     (case countNeighbors c h g (int x) (int y) of
        Inl e \<Rightarrow> Inl e
      | Inr neighbors \<Rightarrow>
          (case readCell h g (Num (int y)) (Num (int x)) of
             Inl e \<Rightarrow> Inl e
           | Inr cell \<Rightarrow> writeCell h newGrid y x (cellRule cell neighbors)))"

text \<open>
  \<open>renderGrid\<close> and \<open>updateStats\<close> read \<open>grid[y][x]\<close> for every configured coordinate and
  write to the canvas and the counters; what is left of them here is the exception they
  raise when a configured row is missing.
\<close>

definition scanThrows :: "config \<Rightarrow> gridref \<Rightarrow> bool" where
  "scanThrows c g = (0 < gridWidth c \<and> int (length g) < gridHeight c)"

definition renderGrid :: "state \<Rightarrow> result" where
  "renderGrid st = (if scanThrows (config st) (grid st) then Threw TypeError st else Done st)"

definition updateStats :: "state \<Rightarrow> result" where
  "updateStats st = (if scanThrows (config st) (grid st) then Threw TypeError st else Done st)"

definition nextGeneration :: "state \<Rightarrow> result" where
  "nextGeneration st =
     (case createEmptyGrid (config st) (heap st) of
        Inl e \<Rightarrow> Threw e st
      | Inr (h1, newGrid) \<Rightarrow>
          (case forE [0 ..< nat (gridHeight (config st))]
                  (\<lambda>y. forE [0 ..< nat (gridWidth (config st))]
                          (cellStep (config st) (grid st) newGrid y)) h1 of
             Inl e \<Rightarrow> Threw e st
           | Inr h2 \<Rightarrow>
               updateStats (st\<lparr>heap := h2, grid := newGrid,
                               generation := js_increment (generation st)\<rparr>)))"

text \<open>
  The specification's reading of the step, for comparison: the number of live cells
  among the eight wrapped neighbour positions, and Conway's rule on it.
\<close>

definition liveNeighbors_spec :: "int \<Rightarrow> int \<Rightarrow> jsval list list \<Rightarrow> nat \<Rightarrow> nat \<Rightarrow> nat" where
  "liveNeighbors_spec W H v x y =
     length (filter (\<lambda>(i, j). v ! nat ((int y + i + H) mod H) ! nat ((int x + j + W) mod W) = Num 1)
       offsets)"

definition alive_spec :: "bool \<Rightarrow> nat \<Rightarrow> bool" where
  "alive_spec wasAlive n = ((wasAlive \<and> (n = 2 \<or> n = 3)) \<or> (\<not> wasAlive \<and> n = 3))"

section \<open>The scheduler\<close>

definition start :: "state \<Rightarrow> state" where
  "start st = (if isRunning st then st else st\<lparr>isRunning := True, framePending := True\<rparr>)"

definition pause :: "state \<Rightarrow> state" where
  "pause st = (if \<not> isRunning st then st else st\<lparr>isRunning := False, framePending := False\<rparr>)"

definition togglePlayPause :: "state \<Rightarrow> state" where
  "togglePlayPause st = (if isRunning st then pause st else start st)"

definition step :: "state \<Rightarrow> result" where
  "step st = andThen (nextGeneration (pause st)) renderGrid"

text \<open>
  The frame callback. \<open>due\<close> is the outcome of the throttle test
  \<open>timestamp - lastUpdateTime >= 1000 / speed\<close>. The callback that fires is used up;
  the last statement arms the next one.
\<close>

definition animate :: "bool \<Rightarrow> state \<Rightarrow> result" where
  "animate due st =
     (let st0 = st\<lparr>framePending := False\<rparr> in
      if \<not> isRunning st0 then Done st0
      else andThen (if due then andThen (nextGeneration st0) renderGrid else Done st0)
             (\<lambda>s. Done (s\<lparr>framePending := True\<rparr>)))"

section \<open>Board commands and pointer input\<close>

definition showToast :: "message \<Rightarrow> toastType \<Rightarrow> state \<Rightarrow> state" where
  "showToast m t st = st\<lparr>toast := Some (m, t)\<rparr>"

definition clear :: "state \<Rightarrow> result" where
  "clear st =
     (let st1 = pause st in
      case createEmptyGrid (config st1) (heap st1) of
        Inl e \<Rightarrow> Threw e st1
      | Inr (h, g) \<Rightarrow>
          andThen (andThen (renderGrid (st1\<lparr>heap := h, grid := g, generation := 0\<rparr>)) updateStats)
            (\<lambda>s. Done (showToast Cleared Success s)))"

definition randomize :: "(nat \<Rightarrow> bool) \<Rightarrow> state \<Rightarrow> result" where
  "randomize rnd st =
     (let st1 = pause st in
      case createRandomGrid rnd (config st1) (heap st1) of
        Inl e \<Rightarrow> Threw e st1
      | Inr (h, g) \<Rightarrow>
          andThen (andThen (renderGrid (st1\<lparr>heap := h, grid := g, generation := 0\<rparr>)) updateStats)
            (\<lambda>s. Done (showToast Randomized Success s)))"

text \<open>
  The pointer handlers, from the cell coordinates \<open>x\<close>, \<open>y\<close> that \<open>Math.floor\<close> yields
  for the event. A click toggles the cell, a touch sets it.
\<close>

definition handleCanvasClick :: "int \<Rightarrow> int \<Rightarrow> state \<Rightarrow> result" where
  "handleCanvasClick x y st =
     (if 0 \<le> x \<and> x < gridWidth (config st) \<and> 0 \<le> y \<and> y < gridHeight (config st) then
        (case readCell (heap st) (grid st) (Num y) (Num x) of
           Inl e \<Rightarrow> Threw e st
         | Inr v \<Rightarrow>
             (case writeCell (heap st) (grid st) (nat y) (nat x)
                     (if v = Num 1 then Num 0 else Num 1) of
                Inl e \<Rightarrow> Threw e st
              | Inr h \<Rightarrow> andThen (renderGrid (st\<lparr>heap := h\<rparr>)) updateStats))
      else Done st)"

definition handleTouchMove :: "int \<Rightarrow> int \<Rightarrow> state \<Rightarrow> result" where
  "handleTouchMove x y st =
     (if 0 \<le> x \<and> x < gridWidth (config st) \<and> 0 \<le> y \<and> y < gridHeight (config st) then
        (case writeCell (heap st) (grid st) (nat y) (nat x) (Num 1) of
           Inl e \<Rightarrow> Threw e st
         | Inr h \<Rightarrow> andThen (renderGrid (st\<lparr>heap := h\<rparr>)) updateStats)
      else Done st)"

text \<open>
  The resize handler pauses, lets \<open>initCanvas\<close> recompute \<open>CONFIG\<close> from the window
  (here: to the configuration \<open>c\<close> it arrives at) and redraws. The grid is kept.
\<close>

definition resize :: "config \<Rightarrow> state \<Rightarrow> result" where
  "resize c st = renderGrid ((pause st)\<lparr>config := c\<rparr>)"

section \<open>Saved games\<close>

text \<open>
  \<open>String.prototype.trim\<close> on the characters a \<open>string\<close> can hold (code points up to
  255): tab, line feed, vertical tab, form feed, carriage return, space, no-break space.
\<close>

definition isWhiteSpace :: "char \<Rightarrow> bool" where
  "isWhiteSpace ch = (of_char ch \<in> {9, 10, 11, 12, 13, 32, 160 :: nat})"

definition trim :: "string \<Rightarrow> string" where
  "trim s = rev (dropWhile isWhiteSpace (rev (dropWhile isWhiteSpace s)))"

text \<open>
  \<open>getSavedGames\<close> returns a plain object, parsed from the stored text or \<open>{}\<close>. Its own
  properties are the saved games; every other name is looked up on \<open>Object.prototype\<close>.
  Reading an inherited name yields a function or the prototype object itself, which is
  truthy and has no \<open>gridWidth\<close>. Assigning to \<^verbatim>\<open>__proto__\<close>, unless it is an own property,
  runs the inherited setter, which replaces the prototype and adds no property; the other
  inherited names are plain data properties and are shadowed by an assignment.
\<close>

definition objectPrototypeKeys :: "string list" where
  "objectPrototypeKeys =
     [''constructor'', ''__defineGetter__'', ''__defineSetter__'', ''hasOwnProperty'',
      ''__lookupGetter__'', ''__lookupSetter__'', ''isPrototypeOf'', ''propertyIsEnumerable'',
      ''toString'', ''valueOf'', ''__proto__'', ''toLocaleString'']"

datatype 'a property = Own 'a | Inherited | Missing

definition getProperty :: "(string \<rightharpoonup> 'a) \<Rightarrow> string \<Rightarrow> 'a property" where
  "getProperty obj k =
     (case obj k of
        Some v \<Rightarrow> Own v
      | None \<Rightarrow> if k \<in> set objectPrototypeKeys then Inherited else Missing)"

definition setProperty :: "(string \<rightharpoonup> 'a) \<Rightarrow> string \<Rightarrow> 'a \<Rightarrow> (string \<rightharpoonup> 'a)" where
  "setProperty obj k v = (if k = ''__proto__'' \<and> obj k = None then obj else obj(k \<mapsto> v))"

definition getSavedGames :: "state \<Rightarrow> (string \<rightharpoonup> gameData)" where
  "getSavedGames st = (case storage st of None \<Rightarrow> Map.empty | Some saved \<Rightarrow> saved)"

text \<open>\<open>now\<close> is the text of \<open>new Date().toISOString()\<close> at the moment of the call.\<close>

definition saveGame :: "string \<Rightarrow> state \<Rightarrow> result" where
  "saveGame now st =
     (let name = trim (saveNameInput st) in
      if name = [] then Done (showToast NameRequired Failure st)
      else
        let savedGames = getSavedGames st;
            gameData = \<lparr>savedName = name,
                        savedGrid = map (map toJson) (gridValue (heap st) (grid st)),
                        savedGeneration = generation st,
                        savedDate = now,
                        savedWidth = gridWidth (config st),
                        savedHeight = gridHeight (config st)\<rparr>
        in Done (showToast (Saved name) Success
                  (st\<lparr>storage := Some (setProperty savedGames name gameData),
                      saveNameInput := []\<rparr>)))"

definition loadGame :: "string \<Rightarrow> state \<Rightarrow> result" where
  "loadGame name st =
     (case getProperty (getSavedGames st) name of
        Missing \<Rightarrow> Done (showToast LoadFailed Failure st)
      | Inherited \<Rightarrow> Done (showToast DimensionsDiffer Failure st)
      | Own gameData \<Rightarrow>
          if savedWidth gameData \<noteq> gridWidth (config st) \<or>
             savedHeight gameData \<noteq> gridHeight (config st)
          then Done (showToast DimensionsDiffer Failure st)
          else
            let st1 = pause st;
                (h, g) = parseGrid (heap st1) (savedGrid gameData)
            in andThen
                 (andThen
                    (renderGrid (st1\<lparr>heap := h, grid := g,
                                     generation := savedGeneration gameData\<rparr>))
                    updateStats)
                 (\<lambda>s. Done (showToast (Loaded name) Success (s\<lparr>modalOpen := False\<rparr>))))"

text \<open>\<open>confirmed\<close> is the user's answer to the \<open>confirm\<close> dialog.\<close>

definition deleteGame :: "bool \<Rightarrow> string \<Rightarrow> state \<Rightarrow> result" where
  "deleteGame confirmed name st =
     (if \<not> confirmed then Done st
      else
        let savedGames = getSavedGames st
        in Done (showToast (Deleted name) Success
                  (st\<lparr>storage := Some (savedGames(name := None))\<rparr>)))"

section \<open>Start-up and the states a session can reach\<close>

text \<open>
  \<open>init\<close>, from the configuration that \<open>initCanvas\<close> leaves, the random source and what
  \<open>localStorage\<close> holds when the page loads. The timer it sets runs \<open>autoStart\<close>.
\<close>

definition pageLoaded :: "config \<Rightarrow> (string \<rightharpoonup> gameData) option \<Rightarrow> state" where
  "pageLoaded c saved =
     \<lparr>config = c, heap = [], grid = [], isRunning = False, generation = 0,
      framePending = False, saveNameInput = [], storage = saved, toast = None,
      modalOpen = False\<rparr>"

definition init :: "config \<Rightarrow> (nat \<Rightarrow> bool) \<Rightarrow> (string \<rightharpoonup> gameData) option \<Rightarrow> result" where
  "init c rnd saved =
     (let st0 = pageLoaded c saved in
      case createRandomGrid rnd c (heap st0) of
        Inl e \<Rightarrow> Threw e st0
      | Inr (h, g) \<Rightarrow> andThen (renderGrid (st0\<lparr>heap := h, grid := g\<rparr>)) updateStats)"

definition autoStart :: "state \<Rightarrow> state" where
  "autoStart st = showToast Started Success (start st)"

text \<open>
  Saved games found at page load were written by \<open>saveGame\<close> in an earlier session, so
  their generation counts are counts of steps.
\<close>

definition savedCountsOk :: "(string \<rightharpoonup> gameData) option \<Rightarrow> bool" where
  "savedCountsOk saved =
     (case saved of None \<Rightarrow> True | Some m \<Rightarrow> \<forall>gd \<in> ran m. 0 \<le> savedGeneration gd)"

inductive reachable :: "state \<Rightarrow> bool" where
  r_init: "savedCountsOk saved \<Longrightarrow> reachable (final (init c rnd saved))"
| r_autoStart: "reachable st \<Longrightarrow> reachable (autoStart st)"
| r_toggle: "reachable st \<Longrightarrow> reachable (togglePlayPause st)"
| r_animate: "reachable st \<Longrightarrow> reachable (final (animate due st))"
| r_step: "reachable st \<Longrightarrow> reachable (final (step st))"
| r_clear: "reachable st \<Longrightarrow> reachable (final (clear st))"
| r_randomize: "reachable st \<Longrightarrow> reachable (final (randomize rnd st))"
| r_click: "reachable st \<Longrightarrow> reachable (final (handleCanvasClick x y st))"
| r_touch: "reachable st \<Longrightarrow> reachable (final (handleTouchMove x y st))"
| r_resize: "reachable st \<Longrightarrow> reachable (final (resize c st))"
| r_typing: "reachable st \<Longrightarrow> reachable (st\<lparr>saveNameInput := typed\<rparr>)"
| r_save: "reachable st \<Longrightarrow> reachable (final (saveGame now st))"
| r_load: "reachable st \<Longrightarrow> reachable (final (loadGame name st))"
| r_delete: "reachable st \<Longrightarrow> reachable (final (deleteGame confirmed name st))"
| r_modal: "reachable st \<Longrightarrow> reachable (st\<lparr>modalOpen := shown\<rparr>)"

section \<open>The step as a function of the grid value\<close>

text \<open>
  Value-level counterparts of the loops, used to state what they compute: the neighbour
  at an offset, the value \<open>countNeighbors\<close> accumulates, the cell the rule writes, the
  rows \<open>nextGeneration\<close> builds, and the rows \<open>createRandomGrid\<close> builds.
\<close>

definition nbr :: "config \<Rightarrow> jsval list list \<Rightarrow> int \<Rightarrow> int \<Rightarrow> int \<times> int \<Rightarrow> jsval" where
  "nbr c v x y d =
     v ! nat ((y + fst d + gridHeight c) mod gridHeight c)
       ! nat ((x + snd d + gridWidth c) mod gridWidth c)"

definition neighborValue :: "config \<Rightarrow> jsval list list \<Rightarrow> int \<Rightarrow> int \<Rightarrow> jsval" where
  "neighborValue c v x y = foldl js_add (Num 0) (map (nbr c v x y) offsets)"

definition nextCell :: "config \<Rightarrow> jsval list list \<Rightarrow> nat \<Rightarrow> nat \<Rightarrow> jsval" where
  "nextCell c v y x = cellRule (v ! y ! x) (neighborValue c v (int x) (int y))"

definition nextRows :: "config \<Rightarrow> jsval list list \<Rightarrow> jsval list list" where
  "nextRows c v =
     map (\<lambda>y. map (nextCell c v y) [0 ..< nat (gridWidth c)]) [0 ..< nat (gridHeight c)]"

definition randomRows :: "(nat \<Rightarrow> bool) \<Rightarrow> config \<Rightarrow> jsval list list" where
  "randomRows rnd c =
     map (\<lambda>y. map (\<lambda>x. if rnd (y * nat (gridWidth c) + x) then Num 1 else Num 0)
                 [0 ..< nat (gridWidth c)])
         [0 ..< nat (gridHeight c)]"

text \<open>
  What the proof that the generation counter never goes negative carries along: the
  counter and every stored count are non-negative.
\<close>

definition countsOk :: "state \<Rightarrow> bool" where
  "countsOk st = (0 \<le> generation st \<and> savedCountsOk (storage st))"

section \<open>The block\<close>

text \<open>
  The 2 by 2 block with its first cell at column \<open>bx\<close> and row \<open>by\<close> of a \<open>W\<close> by \<open>H\<close>
  torus: the cells whose column is \<open>bx\<close> or the next one and whose row is \<open>by\<close> or the
  next one, the next of the last being the first. \<open>blockGrid\<close> is the grid in which exactly
  these cells are alive; \<open>inPair\<close> is the indicator of the two columns (or rows).
\<close>

definition blockAt :: "int \<Rightarrow> int \<Rightarrow> int \<Rightarrow> int \<Rightarrow> int \<Rightarrow> int \<Rightarrow> bool" where
  "blockAt W H bx by x y =
     ((x = bx \<or> x = (bx + 1) mod W) \<and> (y = by \<or> y = (by + 1) mod H))"

definition blockGrid :: "int \<Rightarrow> int \<Rightarrow> int \<Rightarrow> int \<Rightarrow> jsval list list" where
  "blockGrid W H bx by =
     map (\<lambda>y. map (\<lambda>x. if blockAt W H bx by (int x) (int y) then Num 1 else Num 0) [0 ..< nat W])
         [0 ..< nat H]"

definition inPair :: "int \<Rightarrow> int \<Rightarrow> int \<Rightarrow> int" where
  "inPair W b u = (if u = b \<or> u = (b + 1) mod W then 1 else 0)"

section \<open>Sample boards\<close>

text \<open>
  Concrete sessions on which the statements below are instantiated: a running session at
  generation 7 on a given board; a 3 by 3 board with one live cell in the last row and
  column; a 4 by 4 board with a row of three live cells; an empty 3 by 2 board; a 4 by 4
  board with a block wrapped around the corner; the second board after its game was saved
  under the name typed as \<^verbatim>\<open>  first \<close>, and the record stored by that; the 3 by 3 board with
  that store, as on a later visit in a smaller window; and the second board with the name
  \<^verbatim>\<open>__proto__\<close> typed in.
\<close>

definition boardState :: "int \<Rightarrow> int \<Rightarrow> int list list \<Rightarrow> state" where
  "boardState w h rows =
     \<lparr>config = \<lparr>cellSize = 8, gridWidth = w, gridHeight = h\<rparr>,
      heap = map (map Num) rows, grid = [0 ..< length rows], isRunning = True,
      generation = 7, framePending = True, saveNameInput = [], storage = None,
      toast = None, modalOpen = False\<rparr>"

definition cornerBoard :: state where
  "cornerBoard = boardState 3 3 [[0, 0, 0], [0, 0, 0], [0, 0, 1]]"

definition blinkerBoard :: state where
  "blinkerBoard = boardState 4 4 [[0, 0, 0, 0], [1, 1, 1, 0], [0, 0, 0, 0], [0, 0, 0, 0]]"

definition emptyBoard :: state where
  "emptyBoard = boardState 3 2 [[0, 0, 0], [0, 0, 0]]"

definition cornerBlockBoard :: state where
  "cornerBlockBoard = boardState 4 4 [[1, 0, 0, 1], [0, 0, 0, 0], [0, 0, 0, 0], [1, 0, 0, 1]]"

definition savedSession :: state where
  "savedSession =
     final (saveGame ''2026-01-01T00:00:00.000Z'' (blinkerBoard\<lparr>saveNameInput := ''  first ''\<rparr>))"

definition firstSnapshot :: gameData where
  "firstSnapshot =
     \<lparr>savedName = ''first'',
           savedGrid = [[JNum 0, JNum 0, JNum 0, JNum 0], [JNum 1, JNum 1, JNum 1, JNum 0],
                        [JNum 0, JNum 0, JNum 0, JNum 0], [JNum 0, JNum 0, JNum 0, JNum 0]],
           savedGeneration = 7, savedDate = ''2026-01-01T00:00:00.000Z'',
           savedWidth = 4, savedHeight = 4\<rparr>"

definition smallerWindow :: state where
  "smallerWindow = cornerBoard\<lparr>storage := storage savedSession\<rparr>"

definition protoSession :: state where
  "protoSession = blinkerBoard\<lparr>saveNameInput := ''__proto__''\<rparr>"

text \<open>
  Sessions that go through a window resize. The page is loaded in a window for which
  \<open>initCanvas\<close> computes a 4 by 4 board, with random cells 1, 0, 1, 0 in every row. It is
  then resized to a window of 6 by 10 cells and set running again; or resized to 6 by 4
  cells; or started, stepped once and resized to a window less than 64 pixels wide, for
  which \<open>initCanvas\<close> computes a negative width. The last session is loaded with a store
  that holds a game saved at generation \<open>2^53\<close>, and loads that game.
\<close>

definition firstWindow :: config where
  "firstWindow = \<lparr>cellSize = 6, gridWidth = 4, gridHeight = 4\<rparr>"

definition tallerWindow :: config where
  "tallerWindow = \<lparr>cellSize = 6, gridWidth = 6, gridHeight = 10\<rparr>"

definition widerWindow :: config where
  "widerWindow = \<lparr>cellSize = 6, gridWidth = 6, gridHeight = 4\<rparr>"

definition narrowWindow :: config where
  "narrowWindow = \<lparr>cellSize = 6, gridWidth = - 9, gridHeight = 4\<rparr>"

definition loadedPage :: state where
  "loadedPage = final (init firstWindow even None)"

definition tallSession :: state where
  "tallSession = togglePlayPause (final (resize tallerWindow loadedPage))"

definition wideSession :: state where
  "wideSession = final (resize widerWindow loadedPage)"

definition narrowSession :: state where
  "narrowSession = final (resize narrowWindow (final (step (autoStart loadedPage))))"

definition agedSnapshot :: gameData where
  "agedSnapshot =
     \<lparr>savedName = ''old'',
      savedGrid = [[JNum 0, JNum 0, JNum 0, JNum 0], [JNum 0, JNum 0, JNum 0, JNum 0],
                   [JNum 0, JNum 0, JNum 0, JNum 0], [JNum 0, JNum 0, JNum 0, JNum 0]],
      savedGeneration = 2 ^ 53, savedDate = ''2026-01-01T00:00:00.000Z'',
      savedWidth = 4, savedHeight = 4\<rparr>"

definition agedSession :: state where
  "agedSession =
     final (loadGame ''old'' (final (init firstWindow even (Some [''old'' \<mapsto> agedSnapshot]))))"

section \<open>Reading a grid of the configured dimensions\<close>

lemma js_increment_safe:
  assumes "0 \<le> n" "n < 2 ^ 53"
  shows "js_increment n = n + 1"
  using assms by (simp add: js_increment_def)

lemma js_increment_nonneg:
  assumes "0 \<le> n"
  shows "0 \<le> js_increment n"
  using assms by (simp add: js_increment_def)

lemma js_increment_stuck: "js_increment (2 ^ 53) = 2 ^ 53"
  by (simp add: js_increment_def)

lemma js_rem_wrap:
  assumes "0 \<le> y" "y < H" "-1 \<le> i"
  shows "js_rem (y + i + H) H = Num ((y + i + H) mod H)"
proof -
  have "0 \<le> y + i + H" "0 < H" using assms by linarith+
  show ?thesis
  proof (cases "y + i + H = 0")
    case True
    then show ?thesis using \<open>0 < H\<close> by (simp add: js_rem_def)
  next
    case False
    with \<open>0 \<le> y + i + H\<close> have "0 < y + i + H" by linarith
    then show ?thesis using \<open>0 < H\<close> by (simp add: js_rem_def)
  qed
qed

lemma wrap_range:
  assumes "0 \<le> (y::int)" "y < H"
  shows "0 \<le> (y + i + H) mod H" "(y + i + H) mod H < H"
  using assms by simp_all

lemma configuredGrid_lengths:
  assumes "configuredGrid c h g"
  shows "int (length (gridValue h g)) = gridHeight c"
    and "y < length g \<Longrightarrow> int (length (gridValue h g ! y)) = gridWidth c"
    and "y < length g \<Longrightarrow> g ! y < length h"
    and "y < length g \<Longrightarrow> gridValue h g ! y = h ! (g ! y)"
  using assms
  by (auto simp: configuredGrid_def gridValue_def deref_def list_all_length)

lemma readCell_configured:
  assumes "configuredGrid c h g" "0 \<le> ky" "ky < gridHeight c" "0 \<le> kx" "kx < gridWidth c"
  shows "readCell h g (Num ky) (Num kx) = Inr (gridValue h g ! nat ky ! nat kx)"
proof -
  have len: "int (length g) = gridHeight c"
    using assms(1) by (simp add: configuredGrid_def)
  have ky: "nat ky < length g" using assms(2,3) len by linarith
  note L = configuredGrid_lengths[OF assms(1)]
  have w: "int (length (h ! (g ! nat ky))) = gridWidth c"
    using L(2)[OF ky] L(4)[OF ky] by simp
  show ?thesis
    using ky w L(3)[OF ky] L(4)[OF ky] assms(2-5) len
    by (simp add: readCell_def js_index_def deref_def)
qed

lemma binaryGrid_cell:
  assumes "binaryGrid v" "y < length v" "x < length (v ! y)"
  shows "v ! y ! x = Num 0 \<or> v ! y ! x = Num 1"
  using assms by (auto simp: binaryGrid_def list_all_length binaryCell_def)

lemma binary_configured_cell:
  assumes "configuredGrid c h g" "binaryGrid (gridValue h g)"
    and "0 \<le> ky" "ky < gridHeight c" "0 \<le> kx" "kx < gridWidth c"
  shows "gridValue h g ! nat ky ! nat kx = Num 0 \<or> gridValue h g ! nat ky ! nat kx = Num 1"
proof -
  note L = configuredGrid_lengths[OF assms(1)]
  have len: "int (length g) = gridHeight c"
    using assms(1) by (simp add: configuredGrid_def)
  have ky: "nat ky < length g" using assms(3,4) len by linarith
  have "nat kx < length (gridValue h g ! nat ky)" using L(2)[OF ky] assms(5,6) by linarith
  moreover have "nat ky < length (gridValue h g)" using ky by (simp add: gridValue_def)
  ultimately show ?thesis using binaryGrid_cell[OF assms(2)] by blast
qed

lemma neighborStep_configured:
  assumes "configuredGrid c h g"
    and "0 \<le> x" "x < gridWidth c" "0 \<le> y" "y < gridHeight c"
    and "-1 \<le> i" "-1 \<le> j" "\<not> (i = 0 \<and> j = 0)"
  shows "neighborStep c h g x y i j count = Inr (js_add count (nbr c (gridValue h g) x y (i, j)))"
proof -
  let ?ky = "(y + i + gridHeight c) mod gridHeight c"
  let ?kx = "(x + j + gridWidth c) mod gridWidth c"
  have r: "0 \<le> ?ky" "?ky < gridHeight c" "0 \<le> ?kx" "?kx < gridWidth c"
    using assms(2-5) by simp_all
  have rd: "readCell h g (Num ?ky) (Num ?kx) = Inr (nbr c (gridValue h g) x y (i, j))"
    using readCell_configured[OF assms(1) r] by (simp add: nbr_def)
  show ?thesis
    using assms(8) rd js_rem_wrap[OF assms(4,5,6)] js_rem_wrap[OF assms(2,3,7)]
    by (auto simp: neighborStep_def Let_def)
qed

lemma neighborStep_self: "neighborStep c h g x y 0 0 count = Inr count"
  by (simp add: neighborStep_def)

lemma countNeighbors_value:
  assumes "configuredGrid c h g"
    and "0 \<le> x" "x < gridWidth c" "0 \<le> y" "y < gridHeight c"
  shows "countNeighbors c h g x y = Inr (neighborValue c (gridValue h g) x y)"
proof -
  note S = neighborStep_configured[OF assms]
  have s: "\<And>n. neighborStep c h g x y (-1) (-1) n = Inr (js_add n (nbr c (gridValue h g) x y (-1, -1)))"
    "\<And>n. neighborStep c h g x y (-1) 0 n = Inr (js_add n (nbr c (gridValue h g) x y (-1, 0)))"
    "\<And>n. neighborStep c h g x y (-1) 1 n = Inr (js_add n (nbr c (gridValue h g) x y (-1, 1)))"
    "\<And>n. neighborStep c h g x y 0 (-1) n = Inr (js_add n (nbr c (gridValue h g) x y (0, -1)))"
    "\<And>n. neighborStep c h g x y 0 1 n = Inr (js_add n (nbr c (gridValue h g) x y (0, 1)))"
    "\<And>n. neighborStep c h g x y 1 (-1) n = Inr (js_add n (nbr c (gridValue h g) x y (1, -1)))"
    "\<And>n. neighborStep c h g x y 1 0 n = Inr (js_add n (nbr c (gridValue h g) x y (1, 0)))"
    "\<And>n. neighborStep c h g x y 1 1 n = Inr (js_add n (nbr c (gridValue h g) x y (1, 1)))"
    by (rule S; simp)+
  show ?thesis
    by (simp add: countNeighbors_def s neighborStep_self neighborValue_def offsets_def)
qed

lemma nbr_binary:
  assumes "configuredGrid c h g" "binaryGrid (gridValue h g)"
    and "0 \<le> x" "x < gridWidth c" "0 \<le> y" "y < gridHeight c"
  shows "nbr c (gridValue h g) x y d = Num 0 \<or> nbr c (gridValue h g) x y d = Num 1"
proof -
  let ?ky = "(y + fst d + gridHeight c) mod gridHeight c"
  let ?kx = "(x + snd d + gridWidth c) mod gridWidth c"
  have r: "0 \<le> ?ky" "?ky < gridHeight c" "0 \<le> ?kx" "?kx < gridWidth c"
    using assms(3-6) by simp_all
  show ?thesis using binary_configured_cell[OF assms(1,2) r] by (simp add: nbr_def)
qed

lemma foldl_js_add_binary:
  assumes "\<forall>d \<in> set ds. f d = Num 0 \<or> f d = Num 1"
  shows "foldl js_add (Num n) (map f ds) = Num (n + sum_list (map (\<lambda>d. cellState (f d)) ds))"
  using assms
proof (induction ds arbitrary: n)
  case Nil
  then show ?case by simp
next
  case (Cons d ds)
  from Cons.prems have "f d = Num 0 \<or> f d = Num 1" by simp
  then show ?case using Cons by (auto simp: cellState_def)
qed

lemma sum_binary_filter:
  assumes "\<forall>d \<in> set ds. f d = Num 0 \<or> f d = Num 1"
  shows "sum_list (map (\<lambda>d. cellState (f d)) ds) = int (length (filter (\<lambda>d. f d = Num 1) ds))"
  using assms by (induction ds) (auto simp: cellState_def)

lemma sum_binary_bounds:
  assumes "\<forall>d \<in> set ds. f d = Num 0 \<or> f d = Num 1"
  shows "0 \<le> sum_list (map (\<lambda>d. cellState (f d)) ds)"
    and "sum_list (map (\<lambda>d. cellState (f d)) ds) \<le> int (length ds)"
proof -
  have "length (filter (\<lambda>d. f d = Num 1) ds) \<le> length ds" by (rule length_filter_le)
  then show "sum_list (map (\<lambda>d. cellState (f d)) ds) \<le> int (length ds)"
    unfolding sum_binary_filter[OF assms] by linarith
  show "0 \<le> sum_list (map (\<lambda>d. cellState (f d)) ds)"
    unfolding sum_binary_filter[OF assms] by simp
qed

lemma neighborSum_spec_nbr:
  "neighborSum_spec (gridWidth c) (gridHeight c) v x y =
     sum_list (map (\<lambda>d. cellState (nbr c v x y d)) offsets)"
  by (simp add: neighborSum_spec_def nbr_def case_prod_unfold)

lemma neighborValue_binary:
  assumes "configuredGrid c h g" "binaryGrid (gridValue h g)"
    and "0 \<le> x" "x < gridWidth c" "0 \<le> y" "y < gridHeight c"
  shows "neighborValue c (gridValue h g) x y =
           Num (neighborSum_spec (gridWidth c) (gridHeight c) (gridValue h g) x y)"
    and "0 \<le> neighborSum_spec (gridWidth c) (gridHeight c) (gridValue h g) x y"
    and "neighborSum_spec (gridWidth c) (gridHeight c) (gridValue h g) x y \<le> 8"
proof -
  have b: "\<forall>d \<in> set offsets. nbr c (gridValue h g) x y d = Num 0 \<or> nbr c (gridValue h g) x y d = Num 1"
    using nbr_binary[OF assms] by blast
  show "neighborValue c (gridValue h g) x y =
           Num (neighborSum_spec (gridWidth c) (gridHeight c) (gridValue h g) x y)"
    using foldl_js_add_binary[OF b, of 0] by (simp add: neighborValue_def neighborSum_spec_nbr)
  show "0 \<le> neighborSum_spec (gridWidth c) (gridHeight c) (gridValue h g) x y"
    using sum_binary_bounds(1)[OF b] by (simp add: neighborSum_spec_nbr)
  show "neighborSum_spec (gridWidth c) (gridHeight c) (gridValue h g) x y \<le> 8"
    using sum_binary_bounds(2)[OF b] by (simp add: neighborSum_spec_nbr offsets_def)
qed

section \<open>The loops of nextGeneration\<close>

lemma forE_snoc:
  "forE (xs @ [x]) body s = (case forE xs body s of Inl e \<Rightarrow> Inl e | Inr s' \<Rightarrow> body x s')"
  by (induction xs arbitrary: s) (auto split: sum.splits)

lemma gridValue_append:
  assumes "configuredGrid c h g"
  shows "gridValue (h @ R) g = gridValue h g" and "configuredGrid c (h @ R) g"
  using assms
  by (auto simp: gridValue_def deref_def configuredGrid_def list_all_iff nth_append)

lemma map_upt_update:
  assumes "k < length r"
  shows "(map f [0 ..< k] @ drop k r)[k := f k] = map f [0 ..< Suc k] @ drop (Suc k) r"
proof -
  have "drop k r = r ! k # drop (Suc k) r" using assms by (simp add: Cons_nth_drop_Suc)
  then show ?thesis by (simp add: list_update_append)
qed

lemma cellStep_configured:
  assumes cg: "configuredGrid c h0 g"
    and y: "y < length R" "length R = nat (gridHeight c)"
    and x: "x < length (R ! y)" "x < nat (gridWidth c)"
  shows "cellStep c g [length h0 ..< length h0 + nat (gridHeight c)] y x (h0 @ R) =
           Inr (h0 @ R[y := (R ! y)[x := nextCell c (gridValue h0 g) y x]])"
proof -
  note A = gridValue_append[OF cg, of R]
  have xr: "0 \<le> int x" "int x < gridWidth c" "0 \<le> int y" "int y < gridHeight c"
    using x y by linarith+
  have cn: "countNeighbors c (h0 @ R) g (int x) (int y) =
      Inr (neighborValue c (gridValue h0 g) (int x) (int y))"
    using countNeighbors_value[OF A(2) xr] A(1) by simp
  have rc: "readCell (h0 @ R) g (Num (int y)) (Num (int x)) = Inr (gridValue h0 g ! y ! x)"
    using readCell_configured[OF A(2) xr(3,4,1,2)] A(1) by simp
  have wc: "writeCell (h0 @ R) [length h0 ..< length h0 + nat (gridHeight c)] y x v =
      Inr (h0 @ R[y := (R ! y)[x := v]])" for v
    using x y by (simp add: writeCell_def deref_def js_store_def list_update_append nth_append)
  show ?thesis by (simp add: cellStep_def cn rc wc nextCell_def)
qed

lemma inner_loop:
  assumes cg: "configuredGrid c h0 g"
    and y: "y < length R" "length R = nat (gridHeight c)"
    and w: "length (R ! y) = nat (gridWidth c)"
    and k: "k \<le> nat (gridWidth c)"
  shows "forE [0 ..< k] (cellStep c g [length h0 ..< length h0 + nat (gridHeight c)] y) (h0 @ R) =
           Inr (h0 @ R[y := map (nextCell c (gridValue h0 g) y) [0 ..< k] @ drop k (R ! y)])"
  using k
proof (induction k)
  case 0
  then show ?case by simp
next
  case (Suc k)
  let ?f = "nextCell c (gridValue h0 g) y"
  let ?R = "R[y := map ?f [0 ..< k] @ drop k (R ! y)]"
  have kw: "k < nat (gridWidth c)" using Suc.prems by simp
  have IH: "forE [0 ..< k] (cellStep c g [length h0 ..< length h0 + nat (gridHeight c)] y) (h0 @ R)
      = Inr (h0 @ ?R)" using Suc by simp
  have ry: "?R ! y = map ?f [0 ..< k] @ drop k (R ! y)" using y by simp
  have len: "k < length (?R ! y)" using kw w ry by simp
  have st: "cellStep c g [length h0 ..< length h0 + nat (gridHeight c)] y k (h0 @ ?R) =
      Inr (h0 @ ?R[y := (?R ! y)[k := ?f k]])"
    using cellStep_configured[OF cg _ _ len kw] y by simp
  have upd: "(?R ! y)[k := ?f k] = map ?f [0 ..< Suc k] @ drop (Suc k) (R ! y)"
    unfolding ry using map_upt_update[of k "R ! y" ?f] kw w by simp
  have "forE [0 ..< Suc k] (cellStep c g [length h0 ..< length h0 + nat (gridHeight c)] y) (h0 @ R)
      = Inr (h0 @ ?R[y := (?R ! y)[k := ?f k]])"
    using IH st by (simp add: forE_snoc)
  then show ?case unfolding upd by simp
qed

lemma row_loop:
  assumes cg: "configuredGrid c h0 g"
    and y: "y < length R" "length R = nat (gridHeight c)"
    and w: "length (R ! y) = nat (gridWidth c)"
  shows "forE [0 ..< nat (gridWidth c)]
           (cellStep c g [length h0 ..< length h0 + nat (gridHeight c)] y) (h0 @ R) =
           Inr (h0 @ R[y := map (nextCell c (gridValue h0 g) y) [0 ..< nat (gridWidth c)]])"
  using inner_loop[OF cg y w order_refl] w by simp

lemma outer_loop:
  assumes cg: "configuredGrid c h0 g"
    and m: "m \<le> nat (gridHeight c)"
  shows "forE [0 ..< m]
           (\<lambda>y. forE [0 ..< nat (gridWidth c)]
                  (cellStep c g [length h0 ..< length h0 + nat (gridHeight c)] y))
           (h0 @ replicate (nat (gridHeight c)) (replicate (nat (gridWidth c)) (Num 0))) =
         Inr (h0 @ map (\<lambda>y. map (nextCell c (gridValue h0 g) y) [0 ..< nat (gridWidth c)]) [0 ..< m]
                 @ replicate (nat (gridHeight c) - m) (replicate (nat (gridWidth c)) (Num 0)))"
  using m
proof (induction m)
  case 0
  then show ?case by simp
next
  case (Suc m)
  let ?W = "nat (gridWidth c)" and ?H = "nat (gridHeight c)"
  let ?row = "\<lambda>y. map (nextCell c (gridValue h0 g) y) [0 ..< ?W]"
  let ?R = "map ?row [0 ..< m] @ replicate (?H - m) (replicate ?W (Num 0))"
  have mH: "m < ?H" using Suc.prems by simp
  have IH: "forE [0 ..< m]
           (\<lambda>y. forE [0 ..< ?W] (cellStep c g [length h0 ..< length h0 + ?H] y))
           (h0 @ replicate ?H (replicate ?W (Num 0))) = Inr (h0 @ ?R)"
    using Suc by simp
  have lenR: "length ?R = ?H" using mH by simp
  have Rm: "?R ! m = replicate ?W (Num 0)" using mH by (simp add: nth_append)
  have rl: "forE [0 ..< ?W] (cellStep c g [length h0 ..< length h0 + ?H] m) (h0 @ ?R) =
      Inr (h0 @ ?R[m := ?row m])"
    using row_loop[OF cg _ lenR, of m] mH lenR Rm by simp
  have "?H - m = Suc (?H - Suc m)" using mH by simp
  then have upd: "?R[m := ?row m] = map ?row [0 ..< Suc m] @ replicate (?H - Suc m) (replicate ?W (Num 0))"
    by (simp add: list_update_append)
  show ?case using IH rl upd by (simp add: forE_snoc)
qed

lemma nextGeneration_configured:
  assumes cg: "configuredGrid (config st) (heap st) (grid st)"
  shows "nextGeneration st =
     Done (st\<lparr>heap := heap st @ nextRows (config st) (gridValue (heap st) (grid st)),
              grid := [length (heap st) ..< length (heap st) + nat (gridHeight (config st))],
              generation := js_increment (generation st)\<rparr>)"
proof -
  have dims: "0 \<le> gridWidth (config st)" "0 \<le> gridHeight (config st)"
    using cg by (simp_all add: configuredGrid_def)
  have ce: "createEmptyGrid (config st) (heap st) =
      Inr (heap st @ replicate (nat (gridHeight (config st))) (replicate (nat (gridWidth (config st))) (Num 0)),
           [length (heap st) ..< length (heap st) + nat (gridHeight (config st))])"
    using dims by (simp add: createEmptyGrid_def)
  note L = outer_loop[OF cg order_refl]
  show ?thesis
    using dims by (simp add: nextGeneration_def ce L updateStats_def scanThrows_def nextRows_def)
qed

lemma cellRule_alive_spec:
  assumes "cell = Num 0 \<or> cell = Num 1"
  shows "cellRule cell (Num (int n)) = (if alive_spec (cell = Num 1) n then Num 1 else Num 0)"
  using assms by (auto simp: cellRule_def alive_spec_def)

lemma neighborSum_live:
  assumes "configuredGrid c h g" "binaryGrid (gridValue h g)"
    and "x < nat (gridWidth c)" "y < nat (gridHeight c)"
  shows "neighborSum_spec (gridWidth c) (gridHeight c) (gridValue h g) (int x) (int y) =
           int (liveNeighbors_spec (gridWidth c) (gridHeight c) (gridValue h g) x y)"
proof -
  have r: "0 \<le> int x" "int x < gridWidth c" "0 \<le> int y" "int y < gridHeight c"
    using assms(3,4) by linarith+
  have b: "\<forall>d \<in> set offsets. nbr c (gridValue h g) (int x) (int y) d = Num 0 \<or>
             nbr c (gridValue h g) (int x) (int y) d = Num 1"
    using nbr_binary[OF assms(1,2) r] by blast
  show ?thesis
    using sum_binary_filter[OF b]
    by (simp add: neighborSum_spec_nbr liveNeighbors_spec_def nbr_def case_prod_unfold)
qed

lemma nextRows_nth:
  assumes "y < nat (gridHeight c)" "x < nat (gridWidth c)"
  shows "nextRows c v ! y ! x = nextCell c v y x"
  using assms by (simp add: nextRows_def)

lemma gridValue_fresh:
  "gridValue (h @ R) [length h ..< length h + length R] = R"
  by (intro nth_equalityI) (simp_all add: gridValue_def deref_def nth_append)

lemma configuredGrid_fresh:
  assumes "0 \<le> gridWidth c" "0 \<le> gridHeight c" "length R = nat (gridHeight c)"
    and "\<forall>r \<in> set R. length r = nat (gridWidth c)"
  shows "configuredGrid c (h @ R) [length h ..< length h + nat (gridHeight c)]"
proof -
  let ?g = "[length h ..< length h + nat (gridHeight c)]"
  have len: "int (length ?g) = gridHeight c" using assms(2) by simp
  have rows: "?g ! i < length (h @ R) \<and> int (length ((h @ R) ! (?g ! i))) = gridWidth c"
    if "i < length ?g" for i
  proof -
    have i: "i < length R" using that assms(3) by simp
    then have gi: "?g ! i = length h + i" using assms(3) by simp
    have "R ! i \<in> set R" using i by simp
    then have "length (R ! i) = nat (gridWidth c)" using assms(4) by blast
    then have "int (length (R ! i)) = gridWidth c" using assms(1) by simp
    moreover have "(h @ R) ! (length h + i) = R ! i" by (simp add: nth_append)
    ultimately show ?thesis using i unfolding gi by simp
  qed
  show ?thesis
    unfolding configuredGrid_def list_all_length
    using assms(1,2) len rows by blast
qed

lemma nextRows_shape:
  "length (nextRows c v) = nat (gridHeight c)"
  "\<forall>r \<in> set (nextRows c v). length r = nat (gridWidth c)"
  by (auto simp: nextRows_def)

lemma js_rem_minus_one:
  assumes "0 < H"
  shows "js_rem (0 + (-1) + H) H = Num (H - 1)"
proof -
  have "js_rem (0 + (-1) + H) H = Num ((0 + (-1) + H) mod H)"
    using assms by (intro js_rem_wrap) simp_all
  then show ?thesis using assms by (simp add: zmod_minus1)
qed

section \<open>Claims about the neighbour count\<close>

text \<open>
  Claim C2. On a binary grid of the configured dimensions, \<open>countNeighbors\<close> at an
  in-range coordinate returns a number between 0 and 8, the sum of the states of the
  eight neighbours with each coordinate wrapped as \<open>(coord + delta + dimension) mod
  dimension\<close>. In particular the offset \<open>(-1, -1)\<close> from \<open>(0, 0)\<close> wraps to the last row
  and column, so a live cell there is counted at \<open>(0, 0)\<close>.
\<close>

theorem countNeighbors_toroidal_sum:
  assumes "configuredGrid c h g" and "binaryGrid (gridValue h g)"
  shows "(\<forall>x y. 0 \<le> x \<and> x < gridWidth c \<and> 0 \<le> y \<and> y < gridHeight c \<longrightarrow>
            (\<exists>n. countNeighbors c h g x y = Inr (Num n) \<and> 0 \<le> n \<and> n \<le> 8 \<and>
                 n = neighborSum_spec (gridWidth c) (gridHeight c) (gridValue h g) x y)) \<and>
         (0 < gridWidth c \<and> 0 < gridHeight c \<and>
          gridValue h g ! nat (gridHeight c - 1) ! nat (gridWidth c - 1) = Num 1 \<longrightarrow>
            js_rem (0 + (-1) + gridHeight c) (gridHeight c) = Num (gridHeight c - 1) \<and>
            js_rem (0 + (-1) + gridWidth c) (gridWidth c) = Num (gridWidth c - 1) \<and>
            (\<exists>n. countNeighbors c h g 0 0 = Inr (Num n) \<and> 1 \<le> n))"
proof (intro conjI allI impI)
  fix x y
  assume r: "0 \<le> x \<and> x < gridWidth c \<and> 0 \<le> y \<and> y < gridHeight c"
  then have r': "0 \<le> x" "x < gridWidth c" "0 \<le> y" "y < gridHeight c" by simp_all
  show "\<exists>n. countNeighbors c h g x y = Inr (Num n) \<and> 0 \<le> n \<and> n \<le> 8 \<and>
            n = neighborSum_spec (gridWidth c) (gridHeight c) (gridValue h g) x y"
    using countNeighbors_value[OF assms(1) r'] neighborValue_binary[OF assms r'] by simp
next
  assume a: "0 < gridWidth c \<and> 0 < gridHeight c \<and>
    gridValue h g ! nat (gridHeight c - 1) ! nat (gridWidth c - 1) = Num 1"
  then show "js_rem (0 + (-1) + gridHeight c) (gridHeight c) = Num (gridHeight c - 1)"
    using js_rem_minus_one by blast
  from a show "js_rem (0 + (-1) + gridWidth c) (gridWidth c) = Num (gridWidth c - 1)"
    using js_rem_minus_one by blast
  from a have r: "(0::int) \<le> 0" "0 < gridWidth c" "(0::int) \<le> 0" "0 < gridHeight c" by simp_all
  have b: "\<forall>d \<in> set offsets. nbr c (gridValue h g) 0 0 d = Num 0 \<or> nbr c (gridValue h g) 0 0 d = Num 1"
    using nbr_binary[OF assms r] by blast
  have corner: "nbr c (gridValue h g) 0 0 (-1, -1) = Num 1"
    using a by (simp add: nbr_def zmod_minus1)
  have "(-1, -1) \<in> set (filter (\<lambda>d. nbr c (gridValue h g) 0 0 d = Num 1) offsets)"
    using corner by (simp add: offsets_def)
  then have "0 < length (filter (\<lambda>d. nbr c (gridValue h g) 0 0 d = Num 1) offsets)"
    by (rule length_pos_if_in_set)
  then have "1 \<le> neighborSum_spec (gridWidth c) (gridHeight c) (gridValue h g) 0 0"
    unfolding neighborSum_spec_nbr sum_binary_filter[OF b] by linarith
  then show "\<exists>n. countNeighbors c h g 0 0 = Inr (Num n) \<and> 1 \<le> n"
    using countNeighbors_value[OF assms(1) r] neighborValue_binary(1)[OF assms r] by simp
qed

theorem countNeighbors_toroidal_sum_witness:
  "(\<exists>n. countNeighbors (config cornerBoard) (heap cornerBoard) (grid cornerBoard) 1 1 = Inr (Num n) \<and>
        0 \<le> n \<and> n \<le> 8) \<and>
   (\<exists>n. countNeighbors (config cornerBoard) (heap cornerBoard) (grid cornerBoard) 0 0 = Inr (Num n) \<and>
        1 \<le> n)"
proof -
  have cg: "configuredGrid (config cornerBoard) (heap cornerBoard) (grid cornerBoard)"
    by (simp add: cornerBoard_def boardState_def configuredGrid_def)
  have bin: "binaryGrid (gridValue (heap cornerBoard) (grid cornerBoard))"
    by (simp add: cornerBoard_def boardState_def binaryGrid_def binaryCell_def gridValue_def deref_def)
  have live: "gridValue (heap cornerBoard) (grid cornerBoard)
      ! nat (gridHeight (config cornerBoard) - 1) ! nat (gridWidth (config cornerBoard) - 1) = Num 1"
    by (simp add: cornerBoard_def boardState_def gridValue_def deref_def)
  have dims: "gridWidth (config cornerBoard) = 3" "gridHeight (config cornerBoard) = 3"
    by (simp_all add: cornerBoard_def boardState_def)
  note T = countNeighbors_toroidal_sum[OF cg bin]
  have "0 \<le> (1::int) \<and> 1 < gridWidth (config cornerBoard) \<and> 0 \<le> (1::int) \<and>
      1 < gridHeight (config cornerBoard)"
    by (simp add: dims)
  with T have one: "\<exists>n. countNeighbors (config cornerBoard) (heap cornerBoard) (grid cornerBoard) 1 1 =
      Inr (Num n) \<and> 0 \<le> n \<and> n \<le> 8"
    by blast
  have "0 < gridWidth (config cornerBoard) \<and> 0 < gridHeight (config cornerBoard)"
    by (simp add: dims)
  with T live have two: "\<exists>n. countNeighbors (config cornerBoard) (heap cornerBoard) (grid cornerBoard) 0 0 =
      Inr (Num n) \<and> 1 \<le> n"
    by blast
  from one two show ?thesis by blast
qed

lemma nextGeneration_result:
  assumes cg: "configuredGrid (config st) (heap st) (grid st)"
  shows "\<exists>st'. nextGeneration st = Done st' \<and>
           config st' = config st \<and>
           configuredGrid (config st) (heap st') (grid st') \<and>
           gridValue (heap st') (grid st') = nextRows (config st) (gridValue (heap st) (grid st)) \<and>
           take (length (heap st)) (heap st') = heap st \<and>
           gridValue (heap st') (grid st) = gridValue (heap st) (grid st) \<and>
           generation st' = js_increment (generation st) \<and>
           isRunning st' = isRunning st \<and> framePending st' = framePending st \<and>
           storage st' = storage st \<and> toast st' = toast st"
proof -
  let ?c = "config st"
  let ?R = "nextRows ?c (gridValue (heap st) (grid st))"
  let ?st' = "st\<lparr>heap := heap st @ ?R,
              grid := [length (heap st) ..< length (heap st) + nat (gridHeight ?c)],
              generation := js_increment (generation st)\<rparr>"
  have dims: "0 \<le> gridWidth ?c" "0 \<le> gridHeight ?c"
    using cg by (simp_all add: configuredGrid_def)
  have "configuredGrid ?c (heap st @ ?R) [length (heap st) ..< length (heap st) + nat (gridHeight ?c)]"
    using configuredGrid_fresh[OF dims nextRows_shape] .
  moreover have "gridValue (heap st @ ?R) [length (heap st) ..< length (heap st) + nat (gridHeight ?c)] = ?R"
    using gridValue_fresh[of "heap st" ?R] by (simp add: nextRows_shape(1))
  moreover note gridValue_append(1)[OF cg, of ?R]
  ultimately show ?thesis
    using nextGeneration_configured[OF cg] by simp
qed

section \<open>Claims about the simulation step\<close>

text \<open>
  Claim C1. For every binary grid of the configured dimensions, \<open>nextGeneration\<close>
  returns with a grid of the same dimensions in which a cell is alive exactly when it
  was alive with two or three live neighbours or dead with exactly three, and dead
  otherwise. The rows that existed before the call are unchanged, so the input grid reads
  as it did.
\<close>

theorem nextGeneration_conway:
  assumes "configuredGrid (config st) (heap st) (grid st)"
    and "binaryGrid (gridValue (heap st) (grid st))"
  shows "\<exists>st'. nextGeneration st = Done st' \<and>
           config st' = config st \<and>
           configuredGrid (config st) (heap st') (grid st') \<and>
           (\<forall>y < nat (gridHeight (config st)). \<forall>x < nat (gridWidth (config st)).
              gridValue (heap st') (grid st') ! y ! x =
                (if alive_spec (gridValue (heap st) (grid st) ! y ! x = Num 1)
                      (liveNeighbors_spec (gridWidth (config st)) (gridHeight (config st))
                         (gridValue (heap st) (grid st)) x y)
                 then Num 1 else Num 0)) \<and>
           take (length (heap st)) (heap st') = heap st \<and>
           gridValue (heap st') (grid st) = gridValue (heap st) (grid st)"
proof -
  let ?c = "config st" and ?v = "gridValue (heap st) (grid st)"
  obtain st' where R: "nextGeneration st = Done st'" "config st' = config st"
    "configuredGrid ?c (heap st') (grid st')"
    "gridValue (heap st') (grid st') = nextRows ?c ?v"
    "take (length (heap st)) (heap st') = heap st"
    "gridValue (heap st') (grid st) = ?v"
    using nextGeneration_result[OF assms(1)] by blast
  have cell: "nextRows ?c ?v ! y ! x =
      (if alive_spec (?v ! y ! x = Num 1)
            (liveNeighbors_spec (gridWidth ?c) (gridHeight ?c) ?v x y)
       then Num 1 else Num 0)"
    if y: "y < nat (gridHeight ?c)" and x: "x < nat (gridWidth ?c)" for x y
  proof -
    have r: "0 \<le> int x" "int x < gridWidth ?c" "0 \<le> int y" "int y < gridHeight ?c"
      using x y by linarith+
    have b: "?v ! y ! x = Num 0 \<or> ?v ! y ! x = Num 1"
      using binary_configured_cell[OF assms r(3,4,1,2)] by simp
    have "neighborValue ?c ?v (int x) (int y) =
        Num (int (liveNeighbors_spec (gridWidth ?c) (gridHeight ?c) ?v x y))"
      using neighborValue_binary(1)[OF assms r] neighborSum_live[OF assms x y] by simp
    then show ?thesis
      using cellRule_alive_spec[OF b] nextRows_nth[OF y x] by (simp add: nextCell_def)
  qed
  show ?thesis
    using R cell by auto
qed

theorem nextGeneration_conway_witness:
  "\<exists>st'. nextGeneration blinkerBoard = Done st' \<and>
      gridValue (heap st') (grid st') ! 0 ! 1 = Num 1 \<and>
      gridValue (heap st') (grid st') ! 1 ! 1 = Num 1 \<and>
      gridValue (heap st') (grid st') ! 2 ! 1 = Num 1 \<and>
      gridValue (heap st') (grid st') ! 1 ! 0 = Num 0 \<and>
      gridValue (heap st') (grid blinkerBoard) = gridValue (heap blinkerBoard) (grid blinkerBoard)"
proof -
  have cg: "configuredGrid (config blinkerBoard) (heap blinkerBoard) (grid blinkerBoard)"
    by (simp add: blinkerBoard_def boardState_def configuredGrid_def)
  have bin: "binaryGrid (gridValue (heap blinkerBoard) (grid blinkerBoard))"
    by (simp add: blinkerBoard_def boardState_def binaryGrid_def binaryCell_def gridValue_def deref_def)
  obtain st' where R: "nextGeneration blinkerBoard = Done st'"
    and cells: "\<forall>y < nat (gridHeight (config blinkerBoard)). \<forall>x < nat (gridWidth (config blinkerBoard)).
              gridValue (heap st') (grid st') ! y ! x =
                (if alive_spec (gridValue (heap blinkerBoard) (grid blinkerBoard) ! y ! x = Num 1)
                      (liveNeighbors_spec (gridWidth (config blinkerBoard)) (gridHeight (config blinkerBoard))
                         (gridValue (heap blinkerBoard) (grid blinkerBoard)) x y)
                 then Num 1 else Num 0)"
    and old: "gridValue (heap st') (grid blinkerBoard) = gridValue (heap blinkerBoard) (grid blinkerBoard)"
    using nextGeneration_conway[OF cg bin] by blast
  have v: "gridValue (heap blinkerBoard) (grid blinkerBoard) =
      [[Num 0, Num 0, Num 0, Num 0], [Num 1, Num 1, Num 1, Num 0],
       [Num 0, Num 0, Num 0, Num 0], [Num 0, Num 0, Num 0, Num 0]]"
    by (simp add: blinkerBoard_def boardState_def gridValue_def deref_def)
  have d: "gridWidth (config blinkerBoard) = 4" "gridHeight (config blinkerBoard) = 4"
    by (simp_all add: blinkerBoard_def boardState_def)
  have "gridValue (heap st') (grid st') ! 0 ! 1 = Num 1"
    using cells[rule_format, of 0 1]
    by (simp add: v d alive_spec_def liveNeighbors_spec_def offsets_def)
  moreover have "gridValue (heap st') (grid st') ! 1 ! 1 = Num 1"
    using cells[rule_format, of 1 1]
    by (simp add: v d alive_spec_def liveNeighbors_spec_def offsets_def)
  moreover have "gridValue (heap st') (grid st') ! 2 ! 1 = Num 1"
    using cells[rule_format, of 2 1]
    by (simp add: v d alive_spec_def liveNeighbors_spec_def offsets_def)
  moreover have "gridValue (heap st') (grid st') ! 1 ! 0 = Num 0"
    using cells[rule_format, of 1 0]
    by (simp add: v d alive_spec_def liveNeighbors_spec_def offsets_def)
  ultimately show ?thesis using R old by blast
qed

lemma configured_no_scanThrows:
  assumes "configuredGrid c h g"
  shows "\<not> scanThrows c g"
  using assms by (simp add: configuredGrid_def scanThrows_def)

lemma nbr_allDead:
  assumes "0 \<le> x" "x < gridWidth c" "0 \<le> y" "y < gridHeight c"
  shows "nbr c (replicate (nat (gridHeight c)) (replicate (nat (gridWidth c)) (Num 0))) x y d = Num 0"
proof -
  let ?ky = "(y + fst d + gridHeight c) mod gridHeight c"
  let ?kx = "(x + snd d + gridWidth c) mod gridWidth c"
  have r: "0 \<le> ?ky" "?ky < gridHeight c" "0 \<le> ?kx" "?kx < gridWidth c"
    using assms by simp_all
  then have "nat ?ky < nat (gridHeight c)" "nat ?kx < nat (gridWidth c)" by linarith+
  then show ?thesis unfolding nbr_def by simp
qed

lemma foldl_js_add_zero:
  assumes "\<forall>d \<in> set ds. f d = Num 0"
  shows "foldl js_add (Num n) (map f ds) = Num n"
  using assms by (induction ds) simp_all

lemma nextRows_allDead:
  "nextRows c (replicate (nat (gridHeight c)) (replicate (nat (gridWidth c)) (Num 0))) =
     replicate (nat (gridHeight c)) (replicate (nat (gridWidth c)) (Num 0))"
proof -
  let ?v = "replicate (nat (gridHeight c)) (replicate (nat (gridWidth c)) (Num 0))"
  have cellv: "nextCell c ?v y x = Num 0"
    if "y < nat (gridHeight c)" "x < nat (gridWidth c)" for x y
  proof -
    have r: "0 \<le> int x" "int x < gridWidth c" "0 \<le> int y" "int y < gridHeight c"
      using that by linarith+
    have "neighborValue c ?v (int x) (int y) = Num 0"
      unfolding neighborValue_def
      using foldl_js_add_zero[of offsets "nbr c ?v (int x) (int y)" 0] nbr_allDead[OF r] by simp
    then show ?thesis using that by (simp add: nextCell_def cellRule_def)
  qed
  have row: "map (nextCell c ?v y) [0 ..< nat (gridWidth c)] = replicate (nat (gridWidth c)) (Num 0)"
    if "y < nat (gridHeight c)" for y
    using cellv[OF that] by (intro nth_equalityI) simp_all
  show ?thesis
    unfolding nextRows_def using row by (intro nth_equalityI) simp_all
qed

section \<open>Claims about particular boards\<close>

text \<open>
  Claim C8. The all-dead grid is a fixed point of the step: on the grid of the configured
  dimensions whose cells are all 0, \<open>nextGeneration\<close> returns with a grid whose cells are
  all 0.
\<close>

theorem nextGeneration_allDead:
  assumes "configuredGrid (config st) (heap st) (grid st)"
    and "gridValue (heap st) (grid st) =
           replicate (nat (gridHeight (config st))) (replicate (nat (gridWidth (config st))) (Num 0))"
  shows "\<exists>st'. nextGeneration st = Done st' \<and>
           gridValue (heap st') (grid st') =
             replicate (nat (gridHeight (config st))) (replicate (nat (gridWidth (config st))) (Num 0))"
  using nextGeneration_result[OF assms(1)] nextRows_allDead[of "config st"] assms(2)
  by auto

theorem nextGeneration_allDead_witness:
  "\<exists>st'. nextGeneration emptyBoard = Done st' \<and>
      gridValue (heap st') (grid st') = [[Num 0, Num 0, Num 0], [Num 0, Num 0, Num 0]]"
proof -
  have cg: "configuredGrid (config emptyBoard) (heap emptyBoard) (grid emptyBoard)"
    by (simp add: emptyBoard_def boardState_def configuredGrid_def)
  have v: "gridValue (heap emptyBoard) (grid emptyBoard) =
      replicate (nat (gridHeight (config emptyBoard)))
        (replicate (nat (gridWidth (config emptyBoard))) (Num 0))"
    by (simp add: emptyBoard_def boardState_def gridValue_def deref_def numeral_2_eq_2 numeral_3_eq_3)
  have "replicate (nat (gridHeight (config emptyBoard)))
        (replicate (nat (gridWidth (config emptyBoard))) (Num 0)) =
        [[Num 0, Num 0, Num 0], [Num 0, Num 0, Num 0]]"
    by (simp add: emptyBoard_def boardState_def numeral_2_eq_2 numeral_3_eq_3)
  with nextGeneration_allDead[OF cg v] show ?thesis by simp
qed

section \<open>Stepping once\<close>

lemma step_on_configured:
  assumes "isRunning st"
    and "configuredGrid (config st) (heap st) (grid st)"
    and "0 \<le> generation st" "generation st < 2 ^ 53"
  shows "\<exists>st'. step st = Done st' \<and> \<not> isRunning st' \<and> \<not> framePending st' \<and>
           generation st' = generation st + 1 \<and>
           gridValue (heap st') (grid st') = nextRows (config st) (gridValue (heap st) (grid st)) \<and>
           (\<exists>st''. nextGeneration st = Done st'' \<and> heap st' = heap st'' \<and> grid st' = grid st'')"
proof -
  let ?p = "pause st"
  let ?R = "nextRows (config st) (gridValue (heap st) (grid st))"
  have p: "config ?p = config st" "heap ?p = heap st" "grid ?p = grid st"
    "generation ?p = generation st" "\<not> isRunning ?p" "\<not> framePending ?p"
    using assms(1) by (simp_all add: pause_def)
  have cg: "configuredGrid (config ?p) (heap ?p) (grid ?p)" using assms(2) p by simp
  have A: "nextGeneration ?p =
     Done (?p\<lparr>heap := heap ?p @ nextRows (config ?p) (gridValue (heap ?p) (grid ?p)),
              grid := [length (heap ?p) ..< length (heap ?p) + nat (gridHeight (config ?p))],
              generation := js_increment (generation ?p)\<rparr>)"
    using nextGeneration_configured[OF cg] .
  have B: "nextGeneration st =
     Done (st\<lparr>heap := heap st @ ?R,
              grid := [length (heap st) ..< length (heap st) + nat (gridHeight (config st))],
              generation := js_increment (generation st)\<rparr>)"
    using nextGeneration_configured[OF assms(2)] .
  have "0 \<le> gridHeight (config st)" using assms(2) by (simp add: configuredGrid_def)
  then have ns: "\<not> scanThrows (config st)
      [length (heap st) ..< length (heap st) + nat (gridHeight (config st))]"
    by (simp add: scanThrows_def)
  have v: "gridValue (heap st @ ?R)
      [length (heap st) ..< length (heap st) + nat (gridHeight (config st))] = ?R"
    using gridValue_fresh[of "heap st" ?R] by (simp add: nextRows_shape(1))
  show ?thesis
    unfolding step_def A B using p ns v js_increment_safe[OF assms(3,4)]
    by (simp add: renderGrid_def)
qed

lemma cellRule_binary: "binaryCell (cellRule cell n)"
  by (simp add: cellRule_def binaryCell_def)

lemma nextRows_binary: "binaryGrid (nextRows c v)"
  by (simp add: binaryGrid_def nextRows_def list_all_iff nextCell_def cellRule_binary)

lemma createEmptyGrid_ok:
  assumes "0 \<le> gridWidth c" "0 \<le> gridHeight c"
  shows "createEmptyGrid c h =
           Inr (h @ replicate (nat (gridHeight c)) (replicate (nat (gridWidth c)) (Num 0)),
                [length h ..< length h + nat (gridHeight c)])"
  using assms by (simp add: createEmptyGrid_def)

lemma createRandomGrid_ok:
  assumes "0 \<le> gridWidth c" "0 \<le> gridHeight c"
  shows "createRandomGrid rnd c h =
           Inr (h @ randomRows rnd c, [length h ..< length h + nat (gridHeight c)])"
  using assms by (simp add: createRandomGrid_def randomRows_def)

lemma randomRows_shape:
  "length (randomRows rnd c) = nat (gridHeight c)"
  "\<forall>r \<in> set (randomRows rnd c). length r = nat (gridWidth c)"
  by (auto simp: randomRows_def)

lemma randomRows_binary: "binaryGrid (randomRows rnd c)"
  by (auto simp: binaryGrid_def randomRows_def list_all_iff binaryCell_def)

lemma replicate_binary: "binaryGrid (replicate m (replicate n (Num 0)))"
  by (simp add: binaryGrid_def list_all_iff binaryCell_def)

lemma fresh_grid_installed:
  assumes dims: "0 \<le> gridWidth (config st)" "0 \<le> gridHeight (config st)"
    and R: "length R = nat (gridHeight (config st))" "\<forall>r \<in> set R. length r = nat (gridWidth (config st))"
  shows "andThen (andThen (renderGrid (st\<lparr>heap := heap st @ R,
              grid := [length (heap st) ..< length (heap st) + nat (gridHeight (config st))],
              generation := n\<rparr>)) updateStats) (\<lambda>s. Done (f s)) =
         Done (f (st\<lparr>heap := heap st @ R,
              grid := [length (heap st) ..< length (heap st) + nat (gridHeight (config st))],
              generation := n\<rparr>))"
  using dims by (simp add: renderGrid_def updateStats_def scanThrows_def)

lemma clear_result:
  assumes dims: "0 \<le> gridWidth (config st)" "0 \<le> gridHeight (config st)"
  shows "\<exists>st'. clear st = Done st' \<and> config st' = config st \<and> generation st' = 0 \<and>
           \<not> isRunning st' \<and>
           configuredGrid (config st) (heap st') (grid st') \<and>
           gridValue (heap st') (grid st') =
             replicate (nat (gridHeight (config st))) (replicate (nat (gridWidth (config st))) (Num 0))"
proof -
  let ?p = "pause st"
  let ?R = "replicate (nat (gridHeight (config st))) (replicate (nat (gridWidth (config st))) (Num 0))"
  have p: "config ?p = config st" "\<not> isRunning ?p" by (simp_all add: pause_def)
  have dp: "0 \<le> gridWidth (config ?p)" "0 \<le> gridHeight (config ?p)" using dims p by simp_all
  have sh: "length ?R = nat (gridHeight (config ?p))"
    "\<forall>r \<in> set ?R. length r = nat (gridWidth (config ?p))" using p by simp_all
  have "clear st = Done (showToast Cleared Success (?p\<lparr>heap := heap ?p @ ?R,
              grid := [length (heap ?p) ..< length (heap ?p) + nat (gridHeight (config ?p))],
              generation := 0\<rparr>))"
    unfolding clear_def Let_def createEmptyGrid_ok[OF dp]
    using fresh_grid_installed[OF dp sh, of 0 "showToast Cleared Success"] p by simp
  moreover have "configuredGrid (config st) (heap ?p @ ?R)
      [length (heap ?p) ..< length (heap ?p) + nat (gridHeight (config st))]"
    by (rule configuredGrid_fresh[OF dims]) simp_all
  moreover have "gridValue (heap ?p @ ?R)
      [length (heap ?p) ..< length (heap ?p) + nat (gridHeight (config st))] = ?R"
    using gridValue_fresh[of "heap ?p" ?R] by simp
  ultimately show ?thesis using p by (simp add: showToast_def)
qed

lemma randomize_result:
  assumes dims: "0 \<le> gridWidth (config st)" "0 \<le> gridHeight (config st)"
  shows "\<exists>st'. randomize rnd st = Done st' \<and> config st' = config st \<and> generation st' = 0 \<and>
           \<not> isRunning st' \<and>
           configuredGrid (config st) (heap st') (grid st') \<and>
           gridValue (heap st') (grid st') = randomRows rnd (config st)"
proof -
  let ?p = "pause st"
  let ?R = "randomRows rnd (config st)"
  have p: "config ?p = config st" "\<not> isRunning ?p" by (simp_all add: pause_def)
  have dp: "0 \<le> gridWidth (config ?p)" "0 \<le> gridHeight (config ?p)" using dims p by simp_all
  have sh: "length ?R = nat (gridHeight (config ?p))"
    "\<forall>r \<in> set ?R. length r = nat (gridWidth (config ?p))"
    using p randomRows_shape[of rnd "config st"] by simp_all
  have "randomize rnd st = Done (showToast Randomized Success (?p\<lparr>heap := heap ?p @ ?R,
              grid := [length (heap ?p) ..< length (heap ?p) + nat (gridHeight (config ?p))],
              generation := 0\<rparr>))"
    unfolding randomize_def Let_def createRandomGrid_ok[OF dp]
    using fresh_grid_installed[OF dp sh, of 0 "showToast Randomized Success"] p by simp
  moreover have "configuredGrid (config st) (heap ?p @ ?R)
      [length (heap ?p) ..< length (heap ?p) + nat (gridHeight (config st))]"
    using configuredGrid_fresh[OF dims randomRows_shape] .
  moreover have "gridValue (heap ?p @ ?R)
      [length (heap ?p) ..< length (heap ?p) + nat (gridHeight (config st))] = ?R"
    using gridValue_fresh[of "heap ?p" ?R] by (simp add: randomRows_shape(1))
  ultimately show ?thesis using p by (simp add: showToast_def)
qed

lemma writeCell_configured:
  assumes cg: "configuredGrid c h g"
    and y: "y < nat (gridHeight c)" and x: "x < nat (gridWidth c)"
  shows "writeCell h g y x v = Inr (h[g ! y := (h ! (g ! y))[x := v]])"
    and "configuredGrid c (h[g ! y := (h ! (g ! y))[x := v]]) g"
    and "gridValue (h[g ! y := (h ! (g ! y))[x := v]]) g ! y ! x = v"
    and "binaryGrid (gridValue h g) \<Longrightarrow> binaryCell v \<Longrightarrow>
           binaryGrid (gridValue (h[g ! y := (h ! (g ! y))[x := v]]) g)"
proof -
  let ?a = "g ! y"
  let ?h = "h[?a := (h ! ?a)[x := v]]"
  have len: "int (length g) = gridHeight c"
    and rows: "\<forall>b \<in> set g. b < length h \<and> int (length (h ! b)) = gridWidth c"
    using cg by (simp_all add: configuredGrid_def list_all_iff)
  have yl: "y < length g" using y len by linarith
  then have ag: "?a \<in> set g" by simp
  with rows have a: "?a < length h" "int (length (h ! ?a)) = gridWidth c" by blast+
  have xl: "x < length (h ! ?a)" using a(2) x by linarith
  show "writeCell h g y x v = Inr ?h"
    using yl a(1) xl by (simp add: writeCell_def deref_def js_store_def)
  have row: "?h ! b = (if b = ?a then (h ! ?a)[x := v] else h ! b)" if "b < length h" for b
    using that by (simp add: nth_list_update)
  show "configuredGrid c ?h g"
    using cg rows a row by (auto simp: configuredGrid_def list_all_iff)
  have dr: "deref ?h b = (if b = ?a then (h ! ?a)[x := v] else h ! b)" if "b \<in> set g" for b
    using that rows row by (simp add: deref_def)
  show "gridValue ?h g ! y ! x = v"
    using yl xl dr[OF ag] by (simp add: gridValue_def)
  show "binaryGrid (gridValue ?h g)" if bin: "binaryGrid (gridValue h g)" and bv: "binaryCell v"
  proof -
    have old: "list_all binaryCell (h ! b)" if "b \<in> set g" for b
      using bin that rows by (auto simp: binaryGrid_def gridValue_def list_all_iff deref_def)
    have "set ((h ! ?a)[x := v]) \<subseteq> insert v (set (h ! ?a))" by (rule set_update_subset_insert)
    then have new: "list_all binaryCell ((h ! ?a)[x := v])"
      using old[OF ag] bv by (auto simp: list_all_iff)
    show ?thesis
      using old new dr by (auto simp: binaryGrid_def gridValue_def list_all_iff)
  qed
qed

lemma pointer_write_result:
  assumes cg: "configuredGrid (config st) (heap st) (grid st)"
    and r: "0 \<le> x" "x < gridWidth (config st)" "0 \<le> y" "y < gridHeight (config st)"
  shows "(case writeCell (heap st) (grid st) (nat y) (nat x) v of
            Inl e \<Rightarrow> Threw e st
          | Inr h \<Rightarrow> andThen (renderGrid (st\<lparr>heap := h\<rparr>)) updateStats) =
         Done (st\<lparr>heap := (heap st)[grid st ! nat y := (heap st ! (grid st ! nat y))[nat x := v]]\<rparr>)"
proof -
  have n: "nat y < nat (gridHeight (config st))" "nat x < nat (gridWidth (config st))"
    using r by linarith+
  show ?thesis
    using writeCell_configured(1)[OF cg n] configured_no_scanThrows[OF cg]
    by (simp add: renderGrid_def updateStats_def)
qed

lemma handleCanvasClick_result:
  assumes cg: "configuredGrid (config st) (heap st) (grid st)"
    and r: "0 \<le> x" "x < gridWidth (config st)" "0 \<le> y" "y < gridHeight (config st)"
  shows "handleCanvasClick x y st =
     Done (st\<lparr>heap := (heap st)[grid st ! nat y := (heap st ! (grid st ! nat y))
                 [nat x := (if gridValue (heap st) (grid st) ! nat y ! nat x = Num 1 then Num 0 else Num 1)]]\<rparr>)"
  using r readCell_configured[OF cg r(3,4,1,2)] pointer_write_result[OF cg r]
  by (simp add: handleCanvasClick_def)

lemma handleTouchMove_result:
  assumes cg: "configuredGrid (config st) (heap st) (grid st)"
    and r: "0 \<le> x" "x < gridWidth (config st)" "0 \<le> y" "y < gridHeight (config st)"
  shows "handleTouchMove x y st =
     Done (st\<lparr>heap := (heap st)[grid st ! nat y := (heap st ! (grid st ! nat y))[nat x := Num 1]]\<rparr>)"
  using r pointer_write_result[OF cg r]
  by (simp add: handleTouchMove_def)

lemma pointer_outside:
  assumes "\<not> (0 \<le> x \<and> x < gridWidth (config st) \<and> 0 \<le> y \<and> y < gridHeight (config st))"
  shows "handleCanvasClick x y st = Done st" "handleTouchMove x y st = Done st"
  using assms by (auto simp: handleCanvasClick_def handleTouchMove_def)

section \<open>Cell values on a grid of the configured dimensions\<close>

lemma binary_cells_on_configured:
  assumes cg: "configuredGrid (config st) (heap st) (grid st)"
    and bin: "binaryGrid (gridValue (heap st) (grid st))"
  shows "(\<exists>st'. nextGeneration st = Done st' \<and> binaryGrid (gridValue (heap st') (grid st'))) \<and>
         (\<exists>st'. clear st = Done st' \<and> binaryGrid (gridValue (heap st') (grid st'))) \<and>
         (\<exists>st'. randomize rnd st = Done st' \<and> binaryGrid (gridValue (heap st') (grid st'))) \<and>
         (\<exists>st'. handleCanvasClick x y st = Done st' \<and>
            binaryGrid (gridValue (heap st') (grid st')) \<and>
            (0 \<le> x \<and> x < gridWidth (config st) \<and> 0 \<le> y \<and> y < gridHeight (config st) \<longrightarrow>
               gridValue (heap st') (grid st') ! nat y ! nat x =
                 (if gridValue (heap st) (grid st) ! nat y ! nat x = Num 1 then Num 0 else Num 1))) \<and>
         (\<exists>st'. handleTouchMove x y st = Done st' \<and>
            binaryGrid (gridValue (heap st') (grid st')) \<and>
            (0 \<le> x \<and> x < gridWidth (config st) \<and> 0 \<le> y \<and> y < gridHeight (config st) \<longrightarrow>
               gridValue (heap st') (grid st') ! nat y ! nat x = Num 1))"
proof -
  have dims: "0 \<le> gridWidth (config st)" "0 \<le> gridHeight (config st)"
    using cg by (simp_all add: configuredGrid_def)
  have A: "\<exists>st'. nextGeneration st = Done st' \<and> binaryGrid (gridValue (heap st') (grid st'))"
    using nextGeneration_result[OF cg] nextRows_binary by auto
  have B: "\<exists>st'. clear st = Done st' \<and> binaryGrid (gridValue (heap st') (grid st'))"
    using clear_result[OF dims] replicate_binary by auto
  have C: "\<exists>st'. randomize rnd st = Done st' \<and> binaryGrid (gridValue (heap st') (grid st'))"
    using randomize_result[OF dims, of rnd] randomRows_binary by auto
  let ?in = "0 \<le> x \<and> x < gridWidth (config st) \<and> 0 \<le> y \<and> y < gridHeight (config st)"
  have D: "\<exists>st'. handleCanvasClick x y st = Done st' \<and>
            binaryGrid (gridValue (heap st') (grid st')) \<and>
            (?in \<longrightarrow> gridValue (heap st') (grid st') ! nat y ! nat x =
                 (if gridValue (heap st) (grid st) ! nat y ! nat x = Num 1 then Num 0 else Num 1))"
  proof (cases ?in)
    case True
    then have r: "0 \<le> x" "x < gridWidth (config st)" "0 \<le> y" "y < gridHeight (config st)"
      by simp_all
    have n: "nat y < nat (gridHeight (config st))" "nat x < nat (gridWidth (config st))"
      using r by linarith+
    let ?v = "if gridValue (heap st) (grid st) ! nat y ! nat x = Num 1 then Num 0 else Num 1"
    have bv: "binaryCell ?v" by (simp add: binaryCell_def)
    show ?thesis
      using handleCanvasClick_result[OF cg r] writeCell_configured(3)[OF cg n, of ?v]
        writeCell_configured(4)[OF cg n bin bv]
      by simp
  next
    case False
    show ?thesis using pointer_outside(1)[OF False] bin False by blast
  qed
  have E: "\<exists>st'. handleTouchMove x y st = Done st' \<and>
            binaryGrid (gridValue (heap st') (grid st')) \<and>
            (?in \<longrightarrow> gridValue (heap st') (grid st') ! nat y ! nat x = Num 1)"
  proof (cases ?in)
    case True
    then have r: "0 \<le> x" "x < gridWidth (config st)" "0 \<le> y" "y < gridHeight (config st)"
      by simp_all
    have n: "nat y < nat (gridHeight (config st))" "nat x < nat (gridWidth (config st))"
      using r by linarith+
    have bv: "binaryCell (Num 1)" by (simp add: binaryCell_def)
    show ?thesis
      using handleTouchMove_result[OF cg r] writeCell_configured(3)[OF cg n, of "Num 1"]
        writeCell_configured(4)[OF cg n bin bv]
      by simp
  next
    case False
    show ?thesis using pointer_outside(2)[OF False] bin False by blast
  qed
  from A B C D E show ?thesis by blast
qed

lemma binary_cells_on_configured_example:
  "(\<exists>st'. nextGeneration blinkerBoard = Done st' \<and> binaryGrid (gridValue (heap st') (grid st'))) \<and>
   (\<exists>st'. clear blinkerBoard = Done st' \<and> binaryGrid (gridValue (heap st') (grid st'))) \<and>
   (\<exists>st'. randomize even blinkerBoard = Done st' \<and> binaryGrid (gridValue (heap st') (grid st'))) \<and>
   (\<exists>st'. handleCanvasClick 1 1 blinkerBoard = Done st' \<and>
      binaryGrid (gridValue (heap st') (grid st')) \<and>
      gridValue (heap st') (grid st') ! 1 ! 1 = Num 0) \<and>
   (\<exists>st'. handleTouchMove 3 1 blinkerBoard = Done st' \<and>
      binaryGrid (gridValue (heap st') (grid st')) \<and>
      gridValue (heap st') (grid st') ! 1 ! 3 = Num 1)"
proof -
  have cg: "configuredGrid (config blinkerBoard) (heap blinkerBoard) (grid blinkerBoard)"
    by (simp add: blinkerBoard_def boardState_def configuredGrid_def)
  have bin: "binaryGrid (gridValue (heap blinkerBoard) (grid blinkerBoard))"
    by (simp add: blinkerBoard_def boardState_def binaryGrid_def binaryCell_def gridValue_def deref_def)
  have d: "gridWidth (config blinkerBoard) = 4" "gridHeight (config blinkerBoard) = 4"
    by (simp_all add: blinkerBoard_def boardState_def)
  have v: "gridValue (heap blinkerBoard) (grid blinkerBoard) ! 1 ! 1 = Num 1"
    by (simp add: blinkerBoard_def boardState_def gridValue_def deref_def)
  note T1 = binary_cells_on_configured[OF cg bin, of even 1 1]
  note T2 = binary_cells_on_configured[OF cg bin, of even 3 1]
  have "\<exists>st'. handleCanvasClick 1 1 blinkerBoard = Done st' \<and>
      binaryGrid (gridValue (heap st') (grid st')) \<and>
      gridValue (heap st') (grid st') ! 1 ! 1 = Num 0"
    using T1 v d by auto
  moreover have "\<exists>st'. handleTouchMove 3 1 blinkerBoard = Done st' \<and>
      binaryGrid (gridValue (heap st') (grid st')) \<and>
      gridValue (heap st') (grid st') ! 1 ! 3 = Num 1"
    using T2 d by (auto simp: numeral_3_eq_3)
  ultimately show ?thesis using T1 by blast
qed

lemma trim_sample: "trim ''  first '' = ''first''"
  by (simp add: trim_def isWhiteSpace_def)

lemma savedSession_storage:
  "getSavedGames savedSession ''first'' = Some firstSnapshot"
  by (simp add: firstSnapshot_def savedSession_def saveGame_def trim_sample Let_def showToast_def getSavedGames_def
      setProperty_def blinkerBoard_def boardState_def gridValue_def deref_def)

lemma savedSession_fields:
  "config savedSession = \<lparr>cellSize = 8, gridWidth = 4, gridHeight = 4\<rparr>"
  "generation savedSession = 7" "isRunning savedSession"
  by (simp_all add: savedSession_def saveGame_def trim_sample Let_def showToast_def
      blinkerBoard_def boardState_def)

lemma final_renderGrid [simp]: "final (renderGrid st) = st"
  by (simp add: renderGrid_def)

lemma final_updateStats [simp]: "final (updateStats st) = st"
  by (simp add: updateStats_def)

lemma final_andThen_renderGrid [simp]: "final (andThen r renderGrid) = final r"
  by (cases r) simp_all

lemma final_andThen_updateStats [simp]: "final (andThen r updateStats) = final r"
  by (cases r) simp_all

lemma final_andThen_Done:
  "final (andThen r (\<lambda>s. Done (f s))) = (case r of Done s \<Rightarrow> f s | Threw e s \<Rightarrow> s)"
  by (cases r) simp_all

lemma countsOk_andThen_Done:
  assumes "countsOk (final r)" "\<And>s. countsOk s \<Longrightarrow> countsOk (f s)"
  shows "countsOk (final (andThen r (\<lambda>s. Done (f s))))"
  using assms by (cases r) simp_all

lemma countsOk_final_renders:
  assumes "countsOk st" "\<And>s. countsOk s \<Longrightarrow> countsOk (f s)"
  shows "countsOk (final (andThen (andThen (renderGrid st) updateStats) (\<lambda>s. Done (f s))))"
  by (rule countsOk_andThen_Done) (simp_all add: assms)

lemma countsOk_showToast: "countsOk s \<Longrightarrow> countsOk (showToast m t s)"
  by (simp add: countsOk_def showToast_def)

lemma countsOk_pause: "countsOk s \<Longrightarrow> countsOk (pause s)"
  by (simp add: countsOk_def pause_def)

lemma countsOk_start: "countsOk s \<Longrightarrow> countsOk (start s)"
  by (simp add: countsOk_def start_def)

lemma countsOk_nextGeneration:
  assumes "countsOk st"
  shows "countsOk (final (nextGeneration st))"
  using assms
  by (auto simp: nextGeneration_def countsOk_def js_increment_nonneg split: sum.splits prod.splits)

lemma countsOk_init:
  assumes "savedCountsOk saved"
  shows "countsOk (final (init c rnd saved))"
  using assms
  by (auto simp: init_def Let_def pageLoaded_def countsOk_def split: sum.splits prod.splits)

lemma countsOk_animate:
  assumes "countsOk st"
  shows "countsOk (final (animate due st))"
proof -
  let ?st0 = "st\<lparr>framePending := False\<rparr>"
  have c0: "countsOk ?st0" using assms by (simp add: countsOk_def)
  have fp: "countsOk s \<Longrightarrow> countsOk (s\<lparr>framePending := True\<rparr>)" for s
    by (simp add: countsOk_def)
  have "countsOk (final (if due then andThen (nextGeneration ?st0) renderGrid else Done ?st0))"
    using c0 countsOk_nextGeneration[OF c0] by simp
  then have "countsOk (final (andThen (if due then andThen (nextGeneration ?st0) renderGrid else Done ?st0)
      (\<lambda>s. Done (s\<lparr>framePending := True\<rparr>))))"
    using fp by (rule countsOk_andThen_Done)
  then show ?thesis using c0 by (simp add: animate_def Let_def)
qed

lemma countsOk_clear:
  assumes "countsOk st"
  shows "countsOk (final (clear st))"
proof -
  have p: "countsOk (pause st)" using assms by (rule countsOk_pause)
  have "countsOk (final (andThen (andThen (renderGrid ((pause st)\<lparr>heap := h, grid := g, generation := 0\<rparr>))
      updateStats) (\<lambda>s. Done (showToast Cleared Success s))))" for h g
    using p by (intro countsOk_final_renders countsOk_showToast) (simp_all add: countsOk_def)
  then show ?thesis
    using p by (simp add: clear_def Let_def split: sum.splits prod.splits)
qed

lemma countsOk_randomize:
  assumes "countsOk st"
  shows "countsOk (final (randomize rnd st))"
proof -
  have p: "countsOk (pause st)" using assms by (rule countsOk_pause)
  have "countsOk (final (andThen (andThen (renderGrid ((pause st)\<lparr>heap := h, grid := g, generation := 0\<rparr>))
      updateStats) (\<lambda>s. Done (showToast Randomized Success s))))" for h g
    using p by (intro countsOk_final_renders countsOk_showToast) (simp_all add: countsOk_def)
  then show ?thesis
    using p by (simp add: randomize_def Let_def split: sum.splits prod.splits)
qed

lemma countsOk_click:
  assumes "countsOk st"
  shows "countsOk (final (handleCanvasClick x y st))"
  using assms
  by (auto simp: handleCanvasClick_def countsOk_def split: sum.splits)

lemma countsOk_touch:
  assumes "countsOk st"
  shows "countsOk (final (handleTouchMove x y st))"
  using assms
  by (auto simp: handleTouchMove_def countsOk_def split: sum.splits)

lemma countsOk_resize:
  assumes "countsOk st"
  shows "countsOk (final (resize c st))"
  using countsOk_pause[OF assms] by (simp add: resize_def countsOk_def)

lemma savedCountsOk_lookup:
  assumes "savedCountsOk (storage st)" "getSavedGames st name = Some gd"
  shows "0 \<le> savedGeneration gd"
  using assms
  by (auto simp: savedCountsOk_def getSavedGames_def ran_def split: option.splits)

lemma savedCountsOk_getSavedGames:
  "savedCountsOk (storage st) = (\<forall>gd \<in> ran (getSavedGames st). 0 \<le> savedGeneration gd)"
  by (simp add: savedCountsOk_def getSavedGames_def split: option.splits)

lemma countsOk_saveGame:
  assumes "countsOk st"
  shows "countsOk (final (saveGame now st))"
proof -
  have old: "\<forall>gd \<in> ran (getSavedGames st). 0 \<le> savedGeneration gd" and g: "0 \<le> generation st"
    using assms by (simp_all add: countsOk_def savedCountsOk_getSavedGames)
  have X: "\<forall>gd \<in> ran (setProperty (getSavedGames st) name new). 0 \<le> savedGeneration gd"
    if "0 \<le> savedGeneration new" for name and new :: gameData
    using old that by (auto simp: setProperty_def ran_def split: if_splits)
  have "savedCountsOk (Some (setProperty (getSavedGames st) name new))"
    if "savedGeneration new = generation st" for name and new :: gameData
  proof -
    have "0 \<le> savedGeneration new" using that g by simp
    from X[OF this] show ?thesis by (simp add: savedCountsOk_def)
  qed
  then show ?thesis
    using assms
    by (simp add: saveGame_def Let_def countsOk_def showToast_def)
qed

lemma countsOk_deleteGame:
  assumes "countsOk st"
  shows "countsOk (final (deleteGame confirmed name st))"
proof -
  have old: "\<forall>gd \<in> ran (getSavedGames st). 0 \<le> savedGeneration gd"
    using assms by (simp add: countsOk_def savedCountsOk_getSavedGames)
  have "\<forall>gd \<in> ran ((getSavedGames st)(name := None)). 0 \<le> savedGeneration gd"
    using old by (auto simp: ran_def split: if_splits)
  then show ?thesis
    using assms
    by (simp add: deleteGame_def Let_def countsOk_def showToast_def savedCountsOk_def)
qed

lemma loadGame_generation:
  assumes "getSavedGames st name = Some gd"
    and "savedWidth gd = gridWidth (config st)" "savedHeight gd = gridHeight (config st)"
  shows "generation (final (loadGame name st)) = savedGeneration gd"
    and "storage (final (loadGame name st)) = storage st"
  using assms
  by (simp_all add: loadGame_def getProperty_def Let_def final_andThen_Done showToast_def pause_def
      renderGrid_def updateStats_def split: prod.splits)

lemma countsOk_loadGame:
  assumes "countsOk st"
  shows "countsOk (final (loadGame name st))"
proof (cases "getSavedGames st name")
  case None
  then show ?thesis
    using assms by (simp add: loadGame_def getProperty_def countsOk_def showToast_def)
next
  case (Some gd)
  show ?thesis
  proof (cases "savedWidth gd = gridWidth (config st) \<and> savedHeight gd = gridHeight (config st)")
    case True
    then show ?thesis
      using loadGame_generation[OF Some] savedCountsOk_lookup[OF _ Some] assms
      by (simp add: countsOk_def)
  next
    case False
    then show ?thesis
      using assms Some by (auto simp: loadGame_def getProperty_def countsOk_def showToast_def)
  qed
qed

lemma reachable_countsOk:
  assumes "reachable st"
  shows "countsOk st"
  using assms
proof (induction rule: reachable.induct)
  case (r_init saved c rnd)
  then show ?case by (rule countsOk_init)
next
  case (r_autoStart st)
  then show ?case by (simp add: autoStart_def countsOk_showToast countsOk_start)
next
  case (r_toggle st)
  then show ?case by (simp add: togglePlayPause_def countsOk_pause countsOk_start)
next
  case (r_animate st due)
  then show ?case by (simp add: countsOk_animate)
next
  case (r_step st)
  then show ?case by (simp add: step_def countsOk_nextGeneration countsOk_pause)
next
  case (r_clear st)
  then show ?case by (simp add: countsOk_clear)
next
  case (r_randomize st rnd)
  then show ?case by (simp add: countsOk_randomize)
next
  case (r_click st x y)
  then show ?case by (simp add: countsOk_click)
next
  case (r_touch st x y)
  then show ?case by (simp add: countsOk_touch)
next
  case (r_resize st c)
  then show ?case by (simp add: countsOk_resize)
next
  case (r_typing st typed)
  then show ?case by (simp add: countsOk_def)
next
  case (r_save st now)
  then show ?case by (simp add: countsOk_saveGame)
next
  case (r_load st name)
  then show ?case by (simp add: countsOk_loadGame)
next
  case (r_delete st confirmed name)
  then show ?case by (simp add: countsOk_deleteGame)
next
  case (r_modal st shown)
  then show ?case by (simp add: countsOk_def)
qed

section \<open>Claims about saved games\<close>

text \<open>
  Claim C4. When the game stored under a name was saved with a width or a height other
  than the live one, \<open>loadGame\<close> shows the error toast about differing dimensions and
  changes nothing else: the heap of rows, the grid, the generation counter and the running
  flag are as before.
\<close>

theorem loadGame_dimension_mismatch:
  assumes "getSavedGames st name = Some gd"
    and "savedWidth gd \<noteq> gridWidth (config st) \<or> savedHeight gd \<noteq> gridHeight (config st)"
  shows "\<exists>st'. loadGame name st = Done st' \<and>
           st' = st\<lparr>toast := Some (DimensionsDiffer, Failure)\<rparr> \<and>
           heap st' = heap st \<and> grid st' = grid st \<and> generation st' = generation st \<and>
           isRunning st' = isRunning st \<and> framePending st' = framePending st"
  using assms by (auto simp: loadGame_def getProperty_def showToast_def)

lemma smallerWindow_storage: "getSavedGames smallerWindow ''first'' = Some firstSnapshot"
  using savedSession_storage by (simp add: smallerWindow_def getSavedGames_def)

theorem loadGame_dimension_mismatch_witness:
  "\<exists>st'. loadGame ''first'' smallerWindow = Done st' \<and>
      toast st' = Some (DimensionsDiffer, Failure) \<and>
      heap st' = heap smallerWindow \<and> grid st' = grid smallerWindow \<and>
      generation st' = generation smallerWindow \<and> isRunning st' = isRunning smallerWindow"
proof -
  have "savedWidth firstSnapshot \<noteq> gridWidth (config smallerWindow) \<or>
      savedHeight firstSnapshot \<noteq> gridHeight (config smallerWindow)"
    by (simp add: firstSnapshot_def smallerWindow_def cornerBoard_def boardState_def)
  from loadGame_dimension_mismatch[OF smallerWindow_storage this] show ?thesis by auto
qed

text \<open>
  Claim C6, as stated, has \<open>deleteGame\<close> report an error for a name that is not in the
  store. It reports success when the user confirms, and nothing when they cancel.
\<close>

theorem deleteGame_unknown_counterexample:
  "getSavedGames blinkerBoard ''ghost'' = None \<and>
   toast (final (deleteGame True ''ghost'' blinkerBoard)) = Some (Deleted ''ghost'', Success) \<and>
   toast (final (deleteGame False ''ghost'' blinkerBoard)) = None"
  by (simp add: deleteGame_def getSavedGames_def showToast_def blinkerBoard_def boardState_def)

text \<open>
  Claim C6, amended. For a name that is not in the store, \<open>loadGame\<close> shows an error
  toast and changes nothing else; the toast is the one for a game that could not be loaded
  whenever the name is not one that \<open>Object.prototype\<close> supplies. \<open>deleteGame\<close> changes
  neither the board nor the generation counter nor the games in the store; it shows the
  success toast when the user confirms and does nothing when they cancel.
\<close>

theorem unknown_name_unchanged:
  assumes "getSavedGames st name = None"
  shows "(\<exists>m. loadGame name st = Done (st\<lparr>toast := Some (m, Failure)\<rparr>) \<and>
              (name \<notin> set objectPrototypeKeys \<longrightarrow> m = LoadFailed)) \<and>
         deleteGame False name st = Done st \<and>
         (\<exists>st'. deleteGame True name st = Done st' \<and>
            getSavedGames st' = getSavedGames st \<and>
            st' = st\<lparr>storage := storage st', toast := toast st'\<rparr> \<and>
            toast st' = Some (Deleted name, Success))"
proof -
  have "(getSavedGames st)(name := None) = getSavedGames st"
    using assms by (simp add: fun_upd_idem)
  then show ?thesis
    using assms
    by (auto simp: loadGame_def getProperty_def deleteGame_def showToast_def getSavedGames_def)
qed

theorem unknown_name_unchanged_witness:
  "loadGame ''ghost'' savedSession = Done (savedSession\<lparr>toast := Some (LoadFailed, Failure)\<rparr>) \<and>
   deleteGame False ''ghost'' savedSession = Done savedSession \<and>
   (\<exists>st'. deleteGame True ''ghost'' savedSession = Done st' \<and>
      getSavedGames st' = getSavedGames savedSession \<and>
      toast st' = Some (Deleted ''ghost'', Success))"
proof -
  have a: "getSavedGames savedSession ''ghost'' = None"
    by (simp add: savedSession_def saveGame_def trim_sample Let_def showToast_def getSavedGames_def
        setProperty_def blinkerBoard_def boardState_def)
  have k: "''ghost'' \<notin> set objectPrototypeKeys" by (simp add: objectPrototypeKeys_def)
  from unknown_name_unchanged[OF a] k show ?thesis by auto
qed

lemma json_roundtrip_binary:
  assumes "binaryGrid v"
  shows "map (map fromJson) (map (map toJson) v) = v"
proof -
  have cell: "fromJson (toJson x) = x" if "binaryCell x" for x
    using that by (auto simp: binaryCell_def)
  have "map (map (fromJson \<circ> toJson)) v = v"
    using assms cell by (intro map_idI) (auto simp: binaryGrid_def list_all_iff)
  then show ?thesis by simp
qed

lemma saveGame_stores:
  assumes "trim (saveNameInput st) = name" "name \<noteq> []" "name \<noteq> ''__proto__''"
  shows "getSavedGames (final (saveGame now st)) name =
           Some \<lparr>savedName = name,
                 savedGrid = map (map toJson) (gridValue (heap st) (grid st)),
                 savedGeneration = generation st, savedDate = now,
                 savedWidth = gridWidth (config st), savedHeight = gridHeight (config st)\<rparr>"
  using assms
  by (simp add: saveGame_def Let_def showToast_def getSavedGames_def setProperty_def)

lemma loadGame_restores:
  assumes gd: "getSavedGames later name = Some gd"
    and dims: "savedWidth gd = gridWidth (config later)" "savedHeight gd = gridHeight (config later)"
    and rows: "int (length (savedGrid gd)) = gridHeight (config later)"
  shows "\<exists>st'. loadGame name later = Done st' \<and>
           gridValue (heap st') (grid st') = map (map fromJson) (savedGrid gd) \<and>
           generation st' = savedGeneration gd \<and> \<not> isRunning st' \<and>
           toast st' = Some (Loaded name, Success)"
proof -
  let ?R = "map (map fromJson) (savedGrid gd)"
  let ?h = "heap (pause later)"
  have v: "gridValue (?h @ ?R) [length ?h ..< length ?h + length (savedGrid gd)] = ?R"
    using gridValue_fresh[of ?h ?R] by simp
  have c: "config (pause later) = config later" "\<not> isRunning (pause later)"
    by (simp_all add: pause_def)
  have ns: "\<not> scanThrows (config later) [length ?h ..< length ?h + length (savedGrid gd)]"
    using rows by (simp add: scanThrows_def)
  show ?thesis
    using gd dims v c ns
    by (simp add: loadGame_def getProperty_def Let_def parseGrid_def renderGrid_def
        updateStats_def showToast_def)
qed

lemma saveGame_loadGame_roundtrip:
  assumes name: "trim (saveNameInput st) = name" "name \<noteq> []" "name \<noteq> ''__proto__''"
    and cg: "configuredGrid (config st) (heap st) (grid st)"
    and bin: "binaryGrid (gridValue (heap st) (grid st))"
    and later: "storage later = storage (final (saveGame now st))" "config later = config st"
  shows "\<exists>st'. loadGame name later = Done st' \<and>
           gridValue (heap st') (grid st') = gridValue (heap st) (grid st) \<and>
           generation st' = generation st"
proof -
  let ?gd = "\<lparr>savedName = name,
                 savedGrid = map (map toJson) (gridValue (heap st) (grid st)),
                 savedGeneration = generation st, savedDate = now,
                 savedWidth = gridWidth (config st), savedHeight = gridHeight (config st)\<rparr>"
  have "getSavedGames later = getSavedGames (final (saveGame now st))"
    using later(1) by (simp add: getSavedGames_def)
  then have gd: "getSavedGames later name = Some ?gd"
    using saveGame_stores[OF name] by simp
  have rows: "int (length (savedGrid ?gd)) = gridHeight (config later)"
    using configuredGrid_lengths(1)[OF cg] later(2) by simp
  from loadGame_restores[OF gd _ _ rows] later(2) json_roundtrip_binary[OF bin]
  show ?thesis by auto
qed

text \<open>
  Claim C3 fails for the name \<^verbatim>\<open>__proto__\<close>. \<open>saveGame\<close> announces that the game was
  saved, but the assignment only replaced the prototype of the object read from the store,
  so nothing is written under that name. After the board is cleared, \<open>loadGame\<close> of the
  same name finds the inherited property, shows the error toast about differing dimensions
  and leaves the cleared board and the counter at 0, where the saved game had live cells
  and generation 7. For every other non-empty name the round trip holds
  (\<open>saveGame_loadGame_roundtrip\<close>).
\<close>

theorem saveGame_proto_not_restored:
  "toast (final (saveGame ''2026-01-01T00:00:00.000Z'' protoSession)) =
     Some (Saved ''__proto__'', Success) \<and>
   getSavedGames (final (saveGame ''2026-01-01T00:00:00.000Z'' protoSession)) ''__proto__'' = None \<and>
   toast (final (loadGame ''__proto__''
       (final (clear (final (saveGame ''2026-01-01T00:00:00.000Z'' protoSession)))))) =
     Some (DimensionsDiffer, Failure) \<and>
   generation (final (loadGame ''__proto__''
       (final (clear (final (saveGame ''2026-01-01T00:00:00.000Z'' protoSession)))))) = 0 \<and>
   generation protoSession = 7 \<and>
   gridValue (heap protoSession) (grid protoSession) ! 1 ! 1 = Num 1 \<and>
   gridValue
     (heap (final (loadGame ''__proto__''
        (final (clear (final (saveGame ''2026-01-01T00:00:00.000Z'' protoSession)))))))
     (grid (final (loadGame ''__proto__''
        (final (clear (final (saveGame ''2026-01-01T00:00:00.000Z'' protoSession))))))) ! 1 ! 1 = Num 0"
proof -
  let ?saved = "final (saveGame ''2026-01-01T00:00:00.000Z'' protoSession)"
  have tr: "trim ''__proto__'' = ''__proto__''"
    by (simp add: trim_def isWhiteSpace_def)
  have saved: "?saved = protoSession\<lparr>storage := Some Map.empty, saveNameInput := [],
      toast := Some (Saved ''__proto__'', Success)\<rparr>"
    by (simp add: saveGame_def protoSession_def tr Let_def showToast_def setProperty_def
        getSavedGames_def blinkerBoard_def boardState_def)
  have cp: "config protoSession = \<lparr>cellSize = 8, gridWidth = 4, gridHeight = 4\<rparr>"
    by (simp add: protoSession_def blinkerBoard_def boardState_def)
  have cs: "config ?saved = \<lparr>cellSize = 8, gridWidth = 4, gridHeight = 4\<rparr>"
    unfolding saved using cp by simp
  have d: "0 \<le> gridWidth (config ?saved)" "0 \<le> gridHeight (config ?saved)"
    unfolding cs by simp_all
  obtain cleared where cl: "clear ?saved = Done cleared" "config cleared = config ?saved"
    "generation cleared = 0"
    "gridValue (heap cleared) (grid cleared) =
       replicate (nat (gridHeight (config ?saved))) (replicate (nat (gridWidth (config ?saved))) (Num 0))"
    using clear_result[OF d] by blast
  have ss: "storage ?saved = Some Map.empty" unfolding saved by simp
  have st: "storage cleared = Some Map.empty"
    using cl(1) ss
    by (auto simp: clear_def Let_def showToast_def pause_def renderGrid_def updateStats_def
        split: sum.splits prod.splits if_splits)
  have ld: "loadGame ''__proto__'' cleared = Done (cleared\<lparr>toast := Some (DimensionsDiffer, Failure)\<rparr>)"
    by (simp add: loadGame_def getProperty_def getSavedGames_def st objectPrototypeKeys_def
        showToast_def)
  have v: "gridValue (heap cleared) (grid cleared) ! 1 ! 1 = Num 0"
    unfolding cl(4) cs by simp
  have "gridValue (heap protoSession) (grid protoSession) ! 1 ! 1 = Num 1"
    "generation protoSession = 7"
    by (simp_all add: protoSession_def blinkerBoard_def boardState_def gridValue_def deref_def)
  moreover have "getSavedGames ?saved ''__proto__'' = None"
    using ss by (simp add: getSavedGames_def)
  moreover have "toast ?saved = Some (Saved ''__proto__'', Success)" unfolding saved by simp
  ultimately show ?thesis
    unfolding cl(1) final.simps ld using v cl(3) by simp
qed

theorem saveGame_proto_not_restored_witness:
  "generation (final (loadGame ''__proto__''
       (final (clear (final (saveGame ''2026-01-01T00:00:00.000Z'' protoSession)))))) \<noteq>
     generation protoSession \<and>
   gridValue
     (heap (final (loadGame ''__proto__''
        (final (clear (final (saveGame ''2026-01-01T00:00:00.000Z'' protoSession)))))))
     (grid (final (loadGame ''__proto__''
        (final (clear (final (saveGame ''2026-01-01T00:00:00.000Z'' protoSession))))))) ! 1 ! 1 \<noteq>
     gridValue (heap protoSession) (grid protoSession) ! 1 ! 1"
  using saveGame_proto_not_restored by simp

lemma wrap_cases:
  assumes "0 \<le> (x::int)" "x < W"
  shows "(x + (-1) + W) mod W = (if x = 0 then W - 1 else x - 1)"
    and "(x + 0 + W) mod W = x"
    and "(x + 1 + W) mod W = (if x = W - 1 then 0 else x + 1)"
    and "(x + 1) mod W = (if x = W - 1 then 0 else x + 1)"
proof -
  show "(x + (-1) + W) mod W = (if x = 0 then W - 1 else x - 1)"
  proof (cases "x = 0")
    case True
    then show ?thesis using assms by (simp add: zmod_minus1)
  next
    case False
    then have "0 \<le> x - 1" "x - 1 < W" using assms by linarith+
    then have "(x - 1) mod W = x - 1" by (rule mod_pos_pos_trivial)
    then show ?thesis using False by simp
  qed
  show "(x + 0 + W) mod W = x" using assms by simp
  show s: "(x + 1) mod W = (if x = W - 1 then 0 else x + 1)"
  proof (cases "x = W - 1")
    case True
    then show ?thesis by simp
  next
    case False
    then have "0 \<le> x + 1" "x + 1 < W" using assms by linarith+
    then have "(x + 1) mod W = x + 1" by (rule mod_pos_pos_trivial)
    then show ?thesis using False by simp
  qed
  show "(x + 1 + W) mod W = (if x = W - 1 then 0 else x + 1)"
    using s by simp
qed

lemma pair_neighbours:
  assumes W: "4 \<le> W" and b: "0 \<le> b" "b < W" and x: "0 \<le> x" "x < W"
  shows "inPair W b x = 1 \<Longrightarrow>
           inPair W b ((x + (-1) + W) mod W) + inPair W b x + inPair W b ((x + 1 + W) mod W) = 2"
    and "inPair W b x = 0 \<Longrightarrow>
           inPair W b ((x + (-1) + W) mod W) + inPair W b x + inPair W b ((x + 1 + W) mod W) \<le> 1"
    and "0 \<le> inPair W b ((x + (-1) + W) mod W) + inPair W b x + inPair W b ((x + 1 + W) mod W)"
    and "inPair W b x = 0 \<or> inPair W b x = 1"
  unfolding inPair_def wrap_cases(1,3)[OF x] wrap_cases(4)[OF b]
  using W b x by (auto split: if_splits)

lemma blockGrid_nth:
  assumes "0 \<le> kx" "kx < W" "0 \<le> ky" "ky < H"
  shows "blockGrid W H bx by ! nat ky ! nat kx = (if blockAt W H bx by kx ky then Num 1 else Num 0)"
    and "cellState (blockGrid W H bx by ! nat ky ! nat kx) = inPair W bx kx * inPair H by ky"
proof -
  have n: "nat ky < nat H" "nat kx < nat W" using assms by linarith+
  show v: "blockGrid W H bx by ! nat ky ! nat kx = (if blockAt W H bx by kx ky then Num 1 else Num 0)"
    using n assms by (simp add: blockGrid_def)
  show "cellState (blockGrid W H bx by ! nat ky ! nat kx) = inPair W bx kx * inPair H by ky"
    unfolding v by (simp add: cellState_def blockAt_def inPair_def)
qed

lemma blockGrid_binary: "binaryGrid (blockGrid W H bx by)"
  by (auto simp: binaryGrid_def blockGrid_def list_all_iff binaryCell_def)

lemma nbr_block:
  assumes "0 \<le> x" "x < gridWidth c" "0 \<le> y" "y < gridHeight c"
  shows "cellState (nbr c (blockGrid (gridWidth c) (gridHeight c) bx by) x y (i, j)) =
           inPair (gridWidth c) bx ((x + j + gridWidth c) mod gridWidth c) *
           inPair (gridHeight c) by ((y + i + gridHeight c) mod gridHeight c)"
proof -
  let ?ky = "(y + i + gridHeight c) mod gridHeight c"
  let ?kx = "(x + j + gridWidth c) mod gridWidth c"
  have r: "0 \<le> ?kx" "?kx < gridWidth c" "0 \<le> ?ky" "?ky < gridHeight c"
    using assms by simp_all
  show ?thesis
    using blockGrid_nth(2)[OF r, of bx "by"] by (simp add: nbr_def)
qed

lemma neighborSum_block:
  fixes c :: config
  assumes "0 \<le> x" "x < gridWidth c" "0 \<le> y" "y < gridHeight c"
  shows "neighborSum_spec (gridWidth c) (gridHeight c)
           (blockGrid (gridWidth c) (gridHeight c) bx by) x y =
         (inPair (gridWidth c) bx ((x + (-1) + gridWidth c) mod gridWidth c) +
          inPair (gridWidth c) bx x +
          inPair (gridWidth c) bx ((x + 1 + gridWidth c) mod gridWidth c)) *
         (inPair (gridHeight c) by ((y + (-1) + gridHeight c) mod gridHeight c) +
          inPair (gridHeight c) by y +
          inPair (gridHeight c) by ((y + 1 + gridHeight c) mod gridHeight c)) -
         inPair (gridWidth c) bx x * inPair (gridHeight c) by y"
proof -
  have x0: "(x + 0 + gridWidth c) mod gridWidth c = x"
    and y0: "(y + 0 + gridHeight c) mod gridHeight c = y"
    using assms by simp_all
  note N = nbr_block[OF assms, of bx "by"]
  have "neighborSum_spec (gridWidth c) (gridHeight c)
           (blockGrid (gridWidth c) (gridHeight c) bx by) x y =
      cellState (nbr c (blockGrid (gridWidth c) (gridHeight c) bx by) x y (-1, -1)) +
      cellState (nbr c (blockGrid (gridWidth c) (gridHeight c) bx by) x y (-1, 0)) +
      cellState (nbr c (blockGrid (gridWidth c) (gridHeight c) bx by) x y (-1, 1)) +
      cellState (nbr c (blockGrid (gridWidth c) (gridHeight c) bx by) x y (0, -1)) +
      cellState (nbr c (blockGrid (gridWidth c) (gridHeight c) bx by) x y (0, 1)) +
      cellState (nbr c (blockGrid (gridWidth c) (gridHeight c) bx by) x y (1, -1)) +
      cellState (nbr c (blockGrid (gridWidth c) (gridHeight c) bx by) x y (1, 0)) +
      cellState (nbr c (blockGrid (gridWidth c) (gridHeight c) bx by) x y (1, 1))"
    unfolding neighborSum_spec_nbr offsets_def by simp
  also have "\<dots> =
         (inPair (gridWidth c) bx ((x + (-1) + gridWidth c) mod gridWidth c) +
          inPair (gridWidth c) bx x +
          inPair (gridWidth c) bx ((x + 1 + gridWidth c) mod gridWidth c)) *
         (inPair (gridHeight c) by ((y + (-1) + gridHeight c) mod gridHeight c) +
          inPair (gridHeight c) by y +
          inPair (gridHeight c) by ((y + 1 + gridHeight c) mod gridHeight c)) -
         inPair (gridWidth c) bx x * inPair (gridHeight c) by y"
    unfolding N x0 y0 by (simp only: algebra_simps)
  finally show ?thesis .
qed

lemma product_count:
  fixes sx sy ax ay :: int
  shows "ax = 1 \<Longrightarrow> ay = 1 \<Longrightarrow> sx = 2 \<Longrightarrow> sy = 2 \<Longrightarrow> sx * sy - ax * ay = 3"
    and "ax = 0 \<Longrightarrow> 0 \<le> sx \<Longrightarrow> sx \<le> 1 \<Longrightarrow> 0 \<le> sy \<Longrightarrow> sy \<le> 2 \<Longrightarrow> sx * sy - ax * ay \<noteq> 3"
    and "ay = 0 \<Longrightarrow> 0 \<le> sy \<Longrightarrow> sy \<le> 1 \<Longrightarrow> 0 \<le> sx \<Longrightarrow> sx \<le> 2 \<Longrightarrow> sx * sy - ax * ay \<noteq> 3"
proof -
  show "ax = 1 \<Longrightarrow> ay = 1 \<Longrightarrow> sx = 2 \<Longrightarrow> sy = 2 \<Longrightarrow> sx * sy - ax * ay = 3" by simp
  show "sx * sy - ax * ay \<noteq> 3" if "ax = 0" "0 \<le> sx" "sx \<le> 1" "0 \<le> sy" "sy \<le> 2"
  proof -
    from that have "sx = 0 \<or> sx = 1" by linarith
    then show ?thesis using that by auto
  qed
  show "sx * sy - ax * ay \<noteq> 3" if "ay = 0" "0 \<le> sy" "sy \<le> 1" "0 \<le> sx" "sx \<le> 2"
  proof -
    from that have "sy = 0 \<or> sy = 1" by linarith
    then show ?thesis using that by auto
  qed
qed

lemma block_count:
  assumes W: "4 \<le> W" and H: "4 \<le> H"
    and bx: "0 \<le> bx" "bx < W" and "by": "0 \<le> by" "by < H"
    and x: "0 \<le> x" "x < W" and y: "0 \<le> y" "y < H"
  shows "blockAt W H bx by x y \<Longrightarrow>
           (inPair W bx ((x + (-1) + W) mod W) + inPair W bx x + inPair W bx ((x + 1 + W) mod W)) *
           (inPair H by ((y + (-1) + H) mod H) + inPair H by y + inPair H by ((y + 1 + H) mod H)) -
           inPair W bx x * inPair H by y = 3"
    and "\<not> blockAt W H bx by x y \<Longrightarrow>
           (inPair W bx ((x + (-1) + W) mod W) + inPair W bx x + inPair W bx ((x + 1 + W) mod W)) *
           (inPair H by ((y + (-1) + H) mod H) + inPair H by y + inPair H by ((y + 1 + H) mod H)) -
           inPair W bx x * inPair H by y \<noteq> 3"
proof -
  let ?sx = "inPair W bx ((x + (-1) + W) mod W) + inPair W bx x + inPair W bx ((x + 1 + W) mod W)"
  let ?sy = "inPair H by ((y + (-1) + H) mod H) + inPair H by y + inPair H by ((y + 1 + H) mod H)"
  note X = pair_neighbours[OF W bx x]
  note Y = pair_neighbours[OF H "by" y]
  have io: "blockAt W H bx by x y \<longleftrightarrow> inPair W bx x = 1 \<and> inPair H by y = 1"
    by (simp add: blockAt_def inPair_def)
  have sx2: "?sx \<le> 2" using X(1,2,4) by linarith
  have sy2: "?sy \<le> 2" using Y(1,2,4) by linarith
  show "?sx * ?sy - inPair W bx x * inPair H by y = 3" if "blockAt W H bx by x y"
  proof -
    have a: "inPair W bx x = 1" "inPair H by y = 1" using that io by simp_all
    show ?thesis by (rule product_count(1)[OF a X(1)[OF a(1)] Y(1)[OF a(2)]])
  qed
  show "?sx * ?sy - inPair W bx x * inPair H by y \<noteq> 3" if "\<not> blockAt W H bx by x y"
  proof -
    from that io X(4) Y(4) consider "inPair W bx x = 0" | "inPair H by y = 0" by blast
    then show ?thesis
    proof cases
      case 1
      show ?thesis by (rule product_count(2)[OF 1 X(3) X(2)[OF 1] Y(3) sy2])
    next
      case 2
      show ?thesis by (rule product_count(3)[OF 2 Y(3) Y(2)[OF 2] X(3) sx2])
    qed
  qed
qed

lemma nextRows_block:
  fixes c :: config
  assumes cg: "configuredGrid c h g"
    and v: "gridValue h g = blockGrid (gridWidth c) (gridHeight c) bx by"
    and W: "4 \<le> gridWidth c" and H: "4 \<le> gridHeight c"
    and bx: "0 \<le> bx" "bx < gridWidth c" and "by": "0 \<le> by" "by < gridHeight c"
  shows "nextRows c (gridValue h g) = gridValue h g"
proof -
  let ?W = "gridWidth c" and ?H = "gridHeight c"
  let ?v = "blockGrid ?W ?H bx by"
  have bin: "binaryGrid (gridValue h g)" unfolding v by (rule blockGrid_binary)
  have cell: "nextCell c ?v y x = ?v ! y ! x" if y: "y < nat ?H" and x: "x < nat ?W" for x y
  proof -
    have r: "0 \<le> int x" "int x < ?W" "0 \<le> int y" "int y < ?H" using x y by linarith+
    have nv: "neighborValue c ?v (int x) (int y) = Num (neighborSum_spec ?W ?H ?v (int x) (int y))"
      using neighborValue_binary(1)[OF cg bin r] unfolding v .
    have val: "?v ! y ! x = (if blockAt ?W ?H bx by (int x) (int y) then Num 1 else Num 0)"
      using blockGrid_nth(1)[OF r, of bx "by"] by simp
    note cnt = block_count[OF W H bx "by" r]
    show ?thesis
    proof (cases "blockAt ?W ?H bx by (int x) (int y)")
      case True
      then show ?thesis
        using cnt(1) by (simp add: nextCell_def nv val neighborSum_block[OF r] cellRule_def)
    next
      case False
      then show ?thesis
        using cnt(2) by (simp add: nextCell_def nv val neighborSum_block[OF r] cellRule_def)
    qed
  qed
  have len: "length ?v = nat ?H" "\<And>y. y < nat ?H \<Longrightarrow> length (?v ! y) = nat ?W"
    by (simp_all add: blockGrid_def)
  have "nextRows c ?v = ?v"
  proof (rule nth_equalityI)
    show "length (nextRows c ?v) = length ?v" by (simp add: nextRows_shape(1) len(1))
  next
    fix y assume "y < length (nextRows c ?v)"
    then have y: "y < nat ?H" by (simp add: nextRows_shape(1))
    show "nextRows c ?v ! y = ?v ! y"
    proof (rule nth_equalityI)
      show "length (nextRows c ?v ! y) = length (?v ! y)"
        using y len(2)[OF y] by (simp add: nextRows_def)
    next
      fix x assume "x < length (nextRows c ?v ! y)"
      then have x: "x < nat ?W" using y by (simp add: nextRows_def)
      show "nextRows c ?v ! y ! x = ?v ! y ! x"
        using nextRows_nth[OF y x] cell[OF y x] by simp
    qed
  qed
  then show ?thesis unfolding v .
qed

text \<open>
  Claim C9. On a toroidal grid of at least 4 by 4 cells whose only live cells are a 2 by 2
  block (anywhere on the torus, also across an edge), one call of \<open>nextGeneration\<close>
  returns with a grid identical to the input.
\<close>

theorem block_still_life:
  assumes "configuredGrid (config st) (heap st) (grid st)"
    and "4 \<le> gridWidth (config st)" and "4 \<le> gridHeight (config st)"
    and "0 \<le> bx" "bx < gridWidth (config st)" and "0 \<le> by" "by < gridHeight (config st)"
    and "gridValue (heap st) (grid st) =
           blockGrid (gridWidth (config st)) (gridHeight (config st)) bx by"
  shows "\<exists>st'. nextGeneration st = Done st' \<and>
           gridValue (heap st') (grid st') = gridValue (heap st) (grid st)"
  using nextGeneration_result[OF assms(1)]
    nextRows_block[OF assms(1) assms(8) assms(2-7)]
  by auto

theorem block_still_life_witness:
  "\<exists>st'. nextGeneration cornerBlockBoard = Done st' \<and>
      gridValue (heap st') (grid st') =
        [[Num 1, Num 0, Num 0, Num 1], [Num 0, Num 0, Num 0, Num 0],
         [Num 0, Num 0, Num 0, Num 0], [Num 1, Num 0, Num 0, Num 1]]"
proof -
  have cg: "configuredGrid (config cornerBlockBoard) (heap cornerBlockBoard) (grid cornerBlockBoard)"
    by (simp add: cornerBlockBoard_def boardState_def configuredGrid_def)
  have d: "gridWidth (config cornerBlockBoard) = 4" "gridHeight (config cornerBlockBoard) = 4"
    by (simp_all add: cornerBlockBoard_def boardState_def)
  have v: "gridValue (heap cornerBlockBoard) (grid cornerBlockBoard) =
      [[Num 1, Num 0, Num 0, Num 1], [Num 0, Num 0, Num 0, Num 0],
       [Num 0, Num 0, Num 0, Num 0], [Num 1, Num 0, Num 0, Num 1]]"
    by (simp add: cornerBlockBoard_def boardState_def gridValue_def deref_def)
  have b: "blockGrid 4 4 3 3 =
      [[Num 1, Num 0, Num 0, Num 1], [Num 0, Num 0, Num 0, Num 0],
       [Num 0, Num 0, Num 0, Num 0], [Num 1, Num 0, Num 0, Num 1]]"
    by (simp add: blockGrid_def blockAt_def upt_rec)
  have "gridValue (heap cornerBlockBoard) (grid cornerBlockBoard) =
      blockGrid (gridWidth (config cornerBlockBoard)) (gridHeight (config cornerBlockBoard)) 3 3"
    unfolding d v b ..
  from block_still_life[OF cg _ _ _ _ _ _ this] show ?thesis
    unfolding d v by simp
qed

section \<open>Sessions after a window resize\<close>

lemma loadedPage_value:
  "loadedPage =
     \<lparr>config = firstWindow,
      heap = [[Num 1, Num 0, Num 1, Num 0], [Num 1, Num 0, Num 1, Num 0],
              [Num 1, Num 0, Num 1, Num 0], [Num 1, Num 0, Num 1, Num 0]],
      grid = [0, 1, 2, 3], isRunning = False, generation = 0, framePending = False,
      saveNameInput = [], storage = None, toast = None, modalOpen = False\<rparr>"
  by (simp add: loadedPage_def init_def pageLoaded_def createRandomGrid_def firstWindow_def
      renderGrid_def updateStats_def scanThrows_def Let_def upt_rec)

lemma reachable_loadedPage: "reachable loadedPage"
  unfolding loadedPage_def by (rule r_init) (simp add: savedCountsOk_def)

lemma tallSession_value:
  "tallSession = loadedPage\<lparr>config := tallerWindow, isRunning := True, framePending := True\<rparr>"
  by (simp add: tallSession_def resize_def togglePlayPause_def start_def pause_def
      loadedPage_value renderGrid_def scanThrows_def tallerWindow_def)

lemma reachable_tallSession: "reachable tallSession"
  unfolding tallSession_def by (intro r_toggle r_resize reachable_loadedPage)

lemma wideSession_value: "wideSession = loadedPage\<lparr>config := widerWindow\<rparr>"
  by (simp add: wideSession_def resize_def pause_def loadedPage_value renderGrid_def
      scanThrows_def widerWindow_def)

lemma reachable_wideSession: "reachable wideSession"
  unfolding wideSession_def by (intro r_resize reachable_loadedPage)

lemma forE_first_throws:
  assumes "xs = x # rest" "body x s = Inl e"
  shows "forE xs body s = Inl e"
  using assms by simp

lemma nextGeneration_missing_rows:
  assumes c: "config st = tallerWindow" and g: "grid st = [0, 1, 2, 3]"
  shows "nextGeneration st = Threw TypeError st"
proof -
  have rd: "readCell h (grid st) (Num 9) kx = Inl TypeError" for h kx
    by (simp add: g readCell_def js_index_def)
  have cn: "countNeighbors (config st) h (grid st) 0 0 = Inl TypeError" for h
    by (simp add: countNeighbors_def neighborStep_def c tallerWindow_def js_rem_def rd[unfolded c]
        Let_def)
  have cs: "cellStep (config st) (grid st) newGrid 0 0 h = Inl TypeError" for newGrid h
    by (simp add: cellStep_def cn)
  have inner: "forE [0 ..< nat (gridWidth (config st))]
      (cellStep (config st) (grid st) newGrid 0) h = Inl TypeError" for newGrid h
    by (rule forE_first_throws[where x = 0 and rest = "[1 ..< 6]"])
      (simp_all add: c tallerWindow_def cs[unfolded c tallerWindow_def] upt_rec)
  have outer: "forE [0 ..< nat (gridHeight (config st))]
      (\<lambda>y. forE [0 ..< nat (gridWidth (config st))] (cellStep (config st) (grid st) newGrid y)) h =
      Inl TypeError" for newGrid h
    by (rule forE_first_throws[where x = 0 and rest = "[1 ..< 10]"])
      (simp_all add: inner, simp add: c tallerWindow_def upt_rec)
  obtain h1 ng where ce: "createEmptyGrid (config st) (heap st) = Inr (h1, ng)"
    by (simp add: createEmptyGrid_def c tallerWindow_def)
  show ?thesis
    unfolding nextGeneration_def ce by (simp add: outer)
qed

section \<open>Claims about the scheduler\<close>

text \<open>
  Claim C7 fails after a window resize. The resize handler lets \<open>initCanvas\<close> recompute
  \<open>CONFIG\<close> and keeps the grid, where \<open>init\<close> builds a grid right after \<open>initCanvas\<close>. In a
  session loaded on a 4 by 4 board, resized to 6 by 10 and set running again, \<open>step\<close>
  pauses and then throws a \<open>TypeError\<close> at the first neighbour read of row 9, before the
  counter is touched: the scheduler is paused, but no generation was computed and the
  counter has not advanced. On a grid of the configured dimensions, with the counter below
  \<open>2^53\<close>, the claim holds (\<open>step_on_configured\<close>).
\<close>

theorem step_after_resize_throws:
  "reachable tallSession \<and> isRunning tallSession \<and>
   step tallSession = Threw TypeError (pause tallSession) \<and>
   \<not> isRunning (final (step tallSession)) \<and>
   generation (final (step tallSession)) = generation tallSession \<and>
   heap (final (step tallSession)) = heap tallSession \<and>
   grid (final (step tallSession)) = grid tallSession"
proof -
  have c: "config (pause tallSession) = tallerWindow" and g: "grid (pause tallSession) = [0, 1, 2, 3]"
    by (simp_all add: tallSession_value loadedPage_value pause_def)
  have "step tallSession = Threw TypeError (pause tallSession)"
    unfolding step_def nextGeneration_missing_rows[OF c g] by simp
  moreover have "isRunning tallSession" by (simp add: tallSession_value)
  ultimately show ?thesis
    using reachable_tallSession by (simp add: pause_def)
qed

theorem step_after_resize_throws_witness:
  "generation (final (step tallSession)) \<noteq> generation tallSession + 1"
proof -
  from step_after_resize_throws
  have "generation (final (step tallSession)) = generation tallSession" by blast
  then show ?thesis by linarith
qed

section \<open>Claims about cell values\<close>

text \<open>
  Claim C10 fails after a window resize, by the same omission as claim C7: the pointer
  handlers bound the column by \<open>CONFIG.gridWidth\<close>, which the resize handler has changed
  without rebuilding the grid. In a session loaded on a binary 4 by 4 board and resized to
  6 by 4, a touch or a click at column 5 of row 1 writes past the end of the row and
  leaves a hole at column 4, which reads \<open>undefined\<close>: the grid is no longer binary. On a
  binary grid of the configured dimensions the claim holds (\<open>binary_cells_on_configured\<close>).
\<close>

theorem pointer_after_resize_leaves_hole:
  "reachable wideSession \<and>
   binaryGrid (gridValue (heap wideSession) (grid wideSession)) \<and>
   handleTouchMove 5 1 wideSession =
     Done (wideSession\<lparr>heap := [[Num 1, Num 0, Num 1, Num 0],
                                 [Num 1, Num 0, Num 1, Num 0, Undefined, Num 1],
                                 [Num 1, Num 0, Num 1, Num 0], [Num 1, Num 0, Num 1, Num 0]]\<rparr>) \<and>
   handleCanvasClick 5 1 wideSession =
     Done (wideSession\<lparr>heap := [[Num 1, Num 0, Num 1, Num 0],
                                 [Num 1, Num 0, Num 1, Num 0, Undefined, Num 1],
                                 [Num 1, Num 0, Num 1, Num 0], [Num 1, Num 0, Num 1, Num 0]]\<rparr>) \<and>
   \<not> binaryGrid (gridValue (heap (final (handleTouchMove 5 1 wideSession)))
                              (grid (final (handleTouchMove 5 1 wideSession)))) \<and>
   \<not> binaryGrid (gridValue (heap (final (handleCanvasClick 5 1 wideSession)))
                              (grid (final (handleCanvasClick 5 1 wideSession))))"
proof -
  have bin: "binaryGrid (gridValue (heap wideSession) (grid wideSession))"
    by (simp add: wideSession_value loadedPage_value binaryGrid_def binaryCell_def gridValue_def
        deref_def)
  have t: "handleTouchMove 5 1 wideSession =
     Done (wideSession\<lparr>heap := [[Num 1, Num 0, Num 1, Num 0],
                                 [Num 1, Num 0, Num 1, Num 0, Undefined, Num 1],
                                 [Num 1, Num 0, Num 1, Num 0], [Num 1, Num 0, Num 1, Num 0]]\<rparr>)"
    by (simp add: handleTouchMove_def wideSession_value loadedPage_value widerWindow_def
        writeCell_def js_store_def deref_def renderGrid_def updateStats_def scanThrows_def)
  have k: "handleCanvasClick 5 1 wideSession =
     Done (wideSession\<lparr>heap := [[Num 1, Num 0, Num 1, Num 0],
                                 [Num 1, Num 0, Num 1, Num 0, Undefined, Num 1],
                                 [Num 1, Num 0, Num 1, Num 0], [Num 1, Num 0, Num 1, Num 0]]\<rparr>)"
    by (simp add: handleCanvasClick_def wideSession_value loadedPage_value widerWindow_def
        readCell_def js_index_def writeCell_def js_store_def deref_def renderGrid_def
        updateStats_def scanThrows_def)
  have nb: "\<not> binaryGrid (gridValue
      (heap (wideSession\<lparr>heap := [[Num 1, Num 0, Num 1, Num 0],
                                 [Num 1, Num 0, Num 1, Num 0, Undefined, Num 1],
                                 [Num 1, Num 0, Num 1, Num 0], [Num 1, Num 0, Num 1, Num 0]]\<rparr>))
      (grid (wideSession\<lparr>heap := [[Num 1, Num 0, Num 1, Num 0],
                                 [Num 1, Num 0, Num 1, Num 0, Undefined, Num 1],
                                 [Num 1, Num 0, Num 1, Num 0], [Num 1, Num 0, Num 1, Num 0]]\<rparr>)))"
    by (simp add: wideSession_value loadedPage_value binaryGrid_def binaryCell_def gridValue_def
        deref_def)
  show ?thesis
    unfolding t k final.simps using reachable_wideSession bin nb by simp
qed

theorem pointer_after_resize_leaves_hole_witness:
  "gridValue (heap (final (handleTouchMove 5 1 wideSession)))
             (grid (final (handleTouchMove 5 1 wideSession))) \<noteq>
     gridValue (heap wideSession) (grid wideSession) \<and>
   \<not> binaryGrid (gridValue (heap (final (handleCanvasClick 5 1 wideSession)))
                              (grid (final (handleCanvasClick 5 1 wideSession))))"
proof -
  from pointer_after_resize_leaves_hole
  have b: "binaryGrid (gridValue (heap wideSession) (grid wideSession))"
    and t: "\<not> binaryGrid (gridValue (heap (final (handleTouchMove 5 1 wideSession)))
                              (grid (final (handleTouchMove 5 1 wideSession))))"
    and k: "\<not> binaryGrid (gridValue (heap (final (handleCanvasClick 5 1 wideSession)))
                              (grid (final (handleCanvasClick 5 1 wideSession))))"
    by blast+
  from b t have "gridValue (heap (final (handleTouchMove 5 1 wideSession)))
             (grid (final (handleTouchMove 5 1 wideSession))) \<noteq>
     gridValue (heap wideSession) (grid wideSession)"
    by metis
  with k show ?thesis by blast
qed

lemma agedSession_value:
  "agedSession =
     \<lparr>config = firstWindow,
      heap = [[Num 1, Num 0, Num 1, Num 0], [Num 1, Num 0, Num 1, Num 0],
              [Num 1, Num 0, Num 1, Num 0], [Num 1, Num 0, Num 1, Num 0],
              [Num 0, Num 0, Num 0, Num 0], [Num 0, Num 0, Num 0, Num 0],
              [Num 0, Num 0, Num 0, Num 0], [Num 0, Num 0, Num 0, Num 0]],
      grid = [4, 5, 6, 7], isRunning = False, generation = 2 ^ 53, framePending = False,
      saveNameInput = [], storage = Some [''old'' \<mapsto> agedSnapshot],
      toast = Some (Loaded ''old'', Success), modalOpen = False\<rparr>"
  by (simp add: agedSession_def init_def pageLoaded_def createRandomGrid_def firstWindow_def
      renderGrid_def updateStats_def scanThrows_def Let_def upt_rec loadGame_def getProperty_def
      getSavedGames_def agedSnapshot_def parseGrid_def pause_def showToast_def)

lemma reachable_agedSession: "reachable agedSession"
  unfolding agedSession_def
  by (intro r_load r_init) (simp add: savedCountsOk_def agedSnapshot_def)

lemma nextGeneration_agedSession:
  "generation agedSession = 2 ^ 53"
  "generation (final (nextGeneration agedSession)) = 2 ^ 53"
proof -
  show g: "generation agedSession = 2 ^ 53" by (simp add: agedSession_value)
  have cg: "configuredGrid (config agedSession) (heap agedSession) (grid agedSession)"
    by (simp add: agedSession_value firstWindow_def configuredGrid_def)
  from nextGeneration_result[OF cg] obtain st' where
    "nextGeneration agedSession = Done st'" "generation st' = js_increment (generation agedSession)"
    by blast
  then show "generation (final (nextGeneration agedSession)) = 2 ^ 53"
    unfolding g js_increment_stuck by simp
qed

lemma narrowSession_fields:
  "reachable narrowSession" "config narrowSession = narrowWindow" "generation narrowSession = 1"
proof -
  let ?s = "autoStart loadedPage"
  have run: "isRunning ?s" by (simp add: autoStart_def showToast_def start_def loadedPage_value)
  have cg: "configuredGrid (config ?s) (heap ?s) (grid ?s)"
    by (simp add: autoStart_def showToast_def start_def loadedPage_value firstWindow_def
        configuredGrid_def)
  have g: "0 \<le> generation ?s" "generation ?s < 2 ^ 53" "generation ?s = 0"
    by (simp_all add: autoStart_def showToast_def start_def loadedPage_value)
  from step_on_configured[OF run cg g(1,2)] obtain st' where
    st: "step ?s = Done st'" "generation st' = generation ?s + 1" by blast
  have n: "narrowSession = (pause st')\<lparr>config := narrowWindow\<rparr>"
    by (simp add: narrowSession_def st(1) resize_def renderGrid_def scanThrows_def narrowWindow_def)
  show "config narrowSession = narrowWindow" by (simp add: n)
  show "generation narrowSession = 1" using st(2) g(3) by (simp add: n pause_def)
  show "reachable narrowSession"
    unfolding narrowSession_def by (intro r_resize r_step r_autoStart reachable_loadedPage)
qed

lemma negative_width_throws:
  assumes "0 < gridHeight (config st)" "gridWidth (config st) < 0"
  shows "clear st = Threw RangeError (pause st)"
    and "randomize rnd st = Threw RangeError (pause st)"
  using assms
  by (simp_all add: clear_def randomize_def createEmptyGrid_def createRandomGrid_def pause_def Let_def)

section \<open>Claims about the generation counter\<close>

text \<open>
  Claim C5, as stated, has \<open>loadGame\<close> reset the generation counter to 0. It does not:
  loading a game saved at generation 7 leaves the counter at 7. The other clauses need
  their conditions as well. In a session resized to a window so narrow that \<open>initCanvas\<close>
  computes the width -9, \<open>clear\<close> and \<open>randomize\<close> throw a \<open>RangeError\<close> and the counter
  stays at 1. At \<open>2^53\<close> the increment of \<open>nextGeneration\<close> leaves the counter where it is.
  And in the session resized to 6 by 10 over a 4 by 4 grid \<open>nextGeneration\<close> throws a
  \<open>TypeError\<close> before it reaches the counter.
\<close>

theorem loadGame_resets_generation_counterexample:
  "toast (final (loadGame ''first'' savedSession)) = Some (Loaded ''first'', Success) \<and>
   generation (final (loadGame ''first'' savedSession)) = 7 \<and>
   generation (final (loadGame ''first'' savedSession)) \<noteq> 0 \<and>
   reachable narrowSession \<and> generation narrowSession = 1 \<and>
   clear narrowSession = Threw RangeError (pause narrowSession) \<and>
   generation (final (clear narrowSession)) = 1 \<and>
   randomize even narrowSession = Threw RangeError (pause narrowSession) \<and>
   generation (final (randomize even narrowSession)) = 1 \<and>
   reachable agedSession \<and> generation agedSession = 2 ^ 53 \<and>
   generation (final (nextGeneration agedSession)) = 2 ^ 53 \<and>
   reachable tallSession \<and> nextGeneration tallSession = Threw TypeError tallSession"
proof -
  have "generation (final (loadGame ''first'' savedSession)) = 7"
    using loadGame_generation(1)[OF savedSession_storage]
    by (simp add: savedSession_fields firstSnapshot_def)
  moreover have "toast (final (loadGame ''first'' savedSession)) = Some (Loaded ''first'', Success)"
    using savedSession_storage
    by (simp add: loadGame_def getProperty_def savedSession_fields Let_def parseGrid_def
        renderGrid_def updateStats_def scanThrows_def showToast_def pause_def firstSnapshot_def)
  moreover have d: "0 < gridHeight (config narrowSession)" "gridWidth (config narrowSession) < 0"
    by (simp_all add: narrowSession_fields(2) narrowWindow_def)
  moreover note negative_width_throws(1)[OF d] negative_width_throws(2)[OF d, of even]
  moreover have "generation (pause narrowSession) = 1"
    by (simp add: pause_def narrowSession_fields(3))
  moreover have "nextGeneration tallSession = Threw TypeError tallSession"
    by (rule nextGeneration_missing_rows) (simp_all add: tallSession_value loadedPage_value)
  ultimately show ?thesis
    using narrowSession_fields(1,3) reachable_agedSession nextGeneration_agedSession
      reachable_tallSession
    by simp
qed

text \<open>
  Claim C5, amended. In every state that a session reaches from a store whose saved
  counts are non-negative, the generation counter is a non-negative integer. On a grid of
  the configured dimensions, and with the counter from 0 up to \<open>2^53 - 1\<close>,
  \<open>nextGeneration\<close> adds exactly 1. When the configured width and height are not negative,
  \<open>clear\<close> and \<open>randomize\<close> set the counter to 0. And \<open>loadGame\<close> of a saved game of the
  live dimensions sets it to the count stored with that game.
\<close>

theorem generation_counter:
  "(reachable st \<longrightarrow> 0 \<le> generation st) \<and>
   (configuredGrid (config st) (heap st) (grid st) \<and> 0 \<le> generation st \<and> generation st < 2 ^ 53 \<longrightarrow>
      (\<exists>st'. nextGeneration st = Done st' \<and> generation st' = generation st + 1)) \<and>
   (0 \<le> gridWidth (config st) \<and> 0 \<le> gridHeight (config st) \<longrightarrow>
      (\<exists>st'. clear st = Done st' \<and> generation st' = 0) \<and>
      (\<exists>st'. randomize rnd st = Done st' \<and> generation st' = 0)) \<and>
   (getSavedGames st name = Some gd \<and> savedWidth gd = gridWidth (config st) \<and>
    savedHeight gd = gridHeight (config st) \<longrightarrow>
      generation (final (loadGame name st)) = savedGeneration gd)"
proof (intro conjI impI)
  assume "reachable st"
  then show "0 \<le> generation st" using reachable_countsOk by (simp add: countsOk_def)
next
  assume a: "configuredGrid (config st) (heap st) (grid st) \<and> 0 \<le> generation st \<and>
    generation st < 2 ^ 53"
  then have "js_increment (generation st) = generation st + 1"
    using js_increment_safe by blast
  with a show "\<exists>st'. nextGeneration st = Done st' \<and> generation st' = generation st + 1"
    using nextGeneration_result[of st] by auto
next
  assume d: "0 \<le> gridWidth (config st) \<and> 0 \<le> gridHeight (config st)"
  then show "\<exists>st'. clear st = Done st' \<and> generation st' = 0"
    using clear_result[of st] by blast
  from d show "\<exists>st'. randomize rnd st = Done st' \<and> generation st' = 0"
    using randomize_result[of st rnd] by blast
next
  assume "getSavedGames st name = Some gd \<and> savedWidth gd = gridWidth (config st) \<and>
    savedHeight gd = gridHeight (config st)"
  then show "generation (final (loadGame name st)) = savedGeneration gd"
    using loadGame_generation(1) by blast
qed

theorem generation_counter_witness:
  "0 \<le> generation (final (step (autoStart (final (init (config blinkerBoard) even None))))) \<and>
   (\<exists>st'. nextGeneration savedSession = Done st' \<and> generation st' = 8) \<and>
   (\<exists>st'. clear savedSession = Done st' \<and> generation st' = 0) \<and>
   (\<exists>st'. randomize even savedSession = Done st' \<and> generation st' = 0) \<and>
   generation (final (loadGame ''first'' savedSession)) = 7"
proof -
  let ?s = "final (step (autoStart (final (init (config blinkerBoard) even None))))"
  have "savedCountsOk None" by (simp add: savedCountsOk_def)
  then have "reachable (final (init (config blinkerBoard) even None))" by (rule r_init)
  then have "reachable (autoStart (final (init (config blinkerBoard) even None)))" by (rule r_autoStart)
  then have r: "reachable ?s" by (rule r_step)
  have cg: "configuredGrid (config savedSession) (heap savedSession) (grid savedSession)"
    by (simp add: savedSession_def saveGame_def trim_sample Let_def showToast_def
        blinkerBoard_def boardState_def configuredGrid_def)
  have d: "0 \<le> gridWidth (config savedSession) \<and> 0 \<le> gridHeight (config savedSession)"
    by (simp add: savedSession_fields)
  have l: "getSavedGames savedSession ''first'' = Some firstSnapshot \<and>
      savedWidth firstSnapshot = gridWidth (config savedSession) \<and>
      savedHeight firstSnapshot = gridHeight (config savedSession)"
    using savedSession_storage by (simp add: savedSession_fields firstSnapshot_def)
  have "0 \<le> generation ?s"
    using generation_counter[of ?s] r by blast
  moreover have "\<exists>st'. nextGeneration savedSession = Done st' \<and> generation st' = 8"
    using generation_counter[of savedSession] cg by (simp add: savedSession_fields)
  moreover have "\<exists>st'. clear savedSession = Done st' \<and> generation st' = 0"
    using generation_counter[of savedSession] d by blast
  moreover have "\<exists>st'. randomize even savedSession = Done st' \<and> generation st' = 0"
    using generation_counter[of savedSession even] d by blast
  moreover have "generation (final (loadGame ''first'' savedSession)) = 7"
    using generation_counter[of savedSession even "''first''" firstSnapshot] l
    by (simp add: firstSnapshot_def)
  ultimately show ?thesis by blast
qed

end
